theory Spec2Isabelle
  imports Main
begin

chapter \<open>The model\<close>

section \<open>Values held by the resource cache\<close>

text \<open>
  Strings are lists of bytes (the UTF-8 encoding of the JavaScript string), so
  \<open>length\<close> is \<open>Buffer.byteLength(s, 'utf8')\<close>.  Cached values are JSON-like
  JavaScript values; \<open>Buffer\<close>s and \<open>undefined\<close> are left out of the value domain.
\<close>

datatype jsval =
    Null
  | Bool bool
  | Num int
  | Str string
  | Arr "jsval list"
  | Obj "(string \<times> jsval) list"

text \<open>JavaScript truthiness, as used by \<open>!obj\<close>, \<open>parsed.data\<close> and \<open>if (cached)\<close>.\<close>

fun truthy :: "jsval \<Rightarrow> bool" where
  "truthy Null = False"
| "truthy (Bool b) = b"
| "truthy (Num n) = (n \<noteq> 0)"
| "truthy (Str s) = (s \<noteq> [])"
| "truthy (Arr xs) = True"
| "truthy (Obj kvs) = True"

subsection \<open>\<open>JSON.stringify\<close>, as far as its length matters\<close>

definition digit_char :: "nat \<Rightarrow> char" where
  "digit_char n = char_of (48 + n)"

function showNat :: "nat \<Rightarrow> string" where
  "showNat n = (if n < 10 then [digit_char n] else showNat (n div 10) @ [digit_char (n mod 10)])"
  by pat_completeness auto
termination
  by (relation "measure id") auto

declare showNat.simps [simp del]

definition showInt :: "int \<Rightarrow> string" where
  "showInt i = (if i < 0 then CHR ''-'' # showNat (nat (- i)) else showNat (nat i))"

definition hex_lower :: "nat \<Rightarrow> char" where
  "hex_lower n = (if n < 10 then char_of (48 + n) else char_of (87 + n))"

definition json_escape_char :: "char \<Rightarrow> string" where
  "json_escape_char c =
     (if c = CHR 0x22 then [CHR 0x5C, CHR 0x22]
      else if c = CHR 0x5C then [CHR 0x5C, CHR 0x5C]
      else if c = CHR 0x08 then [CHR 0x5C, CHR ''b'']
      else if c = CHR 0x0C then [CHR 0x5C, CHR ''f'']
      else if c = CHR 0x0A then [CHR 0x5C, CHR ''n'']
      else if c = CHR 0x0D then [CHR 0x5C, CHR ''r'']
      else if c = CHR 0x09 then [CHR 0x5C, CHR ''t'']
      else if (of_char c :: nat) < 32
        then [CHR 0x5C, CHR ''u'', CHR ''0'', CHR ''0'',
              hex_lower ((of_char c :: nat) div 16), hex_lower ((of_char c :: nat) mod 16)]
      else [c])"

definition json_quote :: "string \<Rightarrow> string" where
  "json_quote s = CHR 0x22 # concat (map json_escape_char s) @ [CHR 0x22]"

fun intersperse :: "string \<Rightarrow> string list \<Rightarrow> string" where
  "intersperse sep [] = []"
| "intersperse sep [x] = x"
| "intersperse sep (x # y # ys) = x @ sep @ intersperse sep (y # ys)"

fun JSON_stringify :: "jsval \<Rightarrow> string" where
  "JSON_stringify Null = ''null''"
| "JSON_stringify (Bool b) = (if b then ''true'' else ''false'')"
| "JSON_stringify (Num n) = showInt n"
| "JSON_stringify (Str s) = json_quote s"
| "JSON_stringify (Arr xs) = ''['' @ intersperse '','' (map JSON_stringify xs) @ '']''"
| "JSON_stringify (Obj kvs) =
     ''{'' @ intersperse '','' (map (\<lambda>(k, v). json_quote k @ '':'' @ JSON_stringify v) kvs) @ ''}''"

section \<open>resourceCache.js\<close>

definition DEFAULT_MAX_ITEMS :: nat where
  "DEFAULT_MAX_ITEMS = 500"

definition DEFAULT_MAX_BYTES :: int where
  "DEFAULT_MAX_BYTES = 50 * 1024 * 1024"

definition MAX_PERSIST_BYTES :: nat where
  "MAX_PERSIST_BYTES = 1024 * 1024"

text \<open>An entry of \<open>cacheMap\<close>: \<open>{ value, size, expiresAt }\<close> (fields \<open>val\<close>, \<open>sizeB\<close>,
  \<open>expiresAt\<close>); \<open>expiresAt\<close> is a time stamp or \<open>null\<close>.\<close>

record entry =
  val :: jsval
  sizeB :: nat
  expiresAt :: "int option"

text \<open>
  The module state.  \<open>cacheMap\<close> is a JavaScript \<open>Map\<close>: an association list in insertion
  order, oldest first, with at most one pair per key.  \<open>disk\<close> stands for the files of
  \<open>CACHE_DIR\<close>: the parsed JSON payload stored under the file name of a key
  (\<open>shaKey\<close> is taken to be injective, and a payload written by \<open>JSON.stringify\<close>
  is read back unchanged by \<open>JSON.parse\<close>).
\<close>

record cache =
  cacheMap :: "(string \<times> entry) list"
  currentBytes :: int
  disk :: "string \<rightharpoonup> jsval"

definition empty_cache :: cache where
  "empty_cache = \<lparr> cacheMap = [], currentBytes = 0, disk = Map.empty \<rparr>"

definition map_has :: "(string \<times> entry) list \<Rightarrow> string \<Rightarrow> bool" where
  "map_has m k = (map_of m k \<noteq> None)"

definition map_delete :: "string \<Rightarrow> (string \<times> entry) list \<Rightarrow> (string \<times> entry) list" where
  "map_delete k m = filter (\<lambda>p. fst p \<noteq> k) m"

text \<open>\<open>Map.prototype.set\<close>: an existing key keeps its place, a new key goes to the end.\<close>

definition map_set :: "string \<Rightarrow> entry \<Rightarrow> (string \<times> entry) list \<Rightarrow> (string \<times> entry) list" where
  "map_set k e m =
     (if map_has m k then map (\<lambda>p. if fst p = k then (k, e) else p) m else m @ [(k, e)])"

definition estimateSize :: "jsval \<Rightarrow> nat" where
  "estimateSize obj =
     (if \<not> truthy obj then 0
      else case obj of Str s \<Rightarrow> length s | _ \<Rightarrow> length (JSON_stringify obj))"

definition touchKey :: "string \<Rightarrow> (string \<times> entry) list \<Rightarrow> (string \<times> entry) list" where
  "touchKey k m =
     (case map_of m k of None \<Rightarrow> m | Some e \<Rightarrow> map_set k e (map_delete k m))"

text \<open>The loop of \<open>evictIfNeeded\<close> on the map and the byte counter.\<close>

fun evict_loop :: "nat \<Rightarrow> int \<Rightarrow> (string \<times> entry) list \<Rightarrow> int \<Rightarrow> (string \<times> entry) list \<times> int" where
  "evict_loop maxItems maxBytes [] bytes = ([], bytes)"
| "evict_loop maxItems maxBytes (p # m) bytes =
     (if length (p # m) > maxItems \<or> bytes > maxBytes
      then evict_loop maxItems maxBytes m (bytes - int (sizeB (snd p)))
      else (p # m, bytes))"

definition evictIfNeeded :: "nat \<Rightarrow> int \<Rightarrow> cache \<Rightarrow> cache" where
  "evictIfNeeded maxItems maxBytes s =
     (case evict_loop maxItems maxBytes (cacheMap s) (currentBytes s) of
        (m, b) \<Rightarrow> s\<lparr> cacheMap := m, currentBytes := b \<rparr>)"

text \<open>
  \<open>persistToDisk\<close> writes \<open>{ ts, key, data }\<close>.  The write is started by \<open>set\<close> and not
  awaited; the model lets it complete at once and succeed.
\<close>

definition persistToDisk :: "int \<Rightarrow> string \<Rightarrow> jsval \<Rightarrow> cache \<Rightarrow> cache" where
  "persistToDisk now key data s =
     s\<lparr> disk := (disk s)(key \<mapsto> Obj [(''ts'', Num now), (''key'', Str key), (''data'', data)]) \<rparr>"

definition loadFromDisk :: "cache \<Rightarrow> string \<Rightarrow> jsval" where
  "loadFromDisk s key =
     (case disk s key of
        None \<Rightarrow> Null
      | Some (Obj kvs) \<Rightarrow>
          (case map_of kvs ''data'' of Some d \<Rightarrow> (if truthy d then d else Null) | None \<Rightarrow> Null)
      | Some _ \<Rightarrow> Null)"

definition removeFromDisk :: "string \<Rightarrow> cache \<Rightarrow> cache" where
  "removeFromDisk key s = s\<lparr> disk := (disk s)(key := None) \<rparr>"

definition is_expired :: "int \<Rightarrow> entry \<Rightarrow> bool" where
  "is_expired now e = (case expiresAt e of None \<Rightarrow> False | Some t \<Rightarrow> t \<noteq> 0 \<and> t < now)"

text \<open>
  \<open>get\<close> has one suspension point, \<open>await loadFromDisk(key)\<close>.  \<open>get_sync\<close> is the part
  that runs before it (the memory lookup) and \<open>get_resume\<close> the part that runs after it,
  given the value read from disk.  \<open>get\<close> is a call that nothing else interleaves with.
\<close>

datatype get_step = Done jsval | AwaitDisk

definition get_sync :: "int \<Rightarrow> string \<Rightarrow> cache \<Rightarrow> get_step \<times> cache" where
  "get_sync now key s =
     (if key = [] then (Done Null, s)
      else case map_of (cacheMap s) key of
        Some e \<Rightarrow>
          (if is_expired now e
           then (Done Null,
                 removeFromDisk key
                   (s\<lparr> cacheMap := map_delete key (cacheMap s),
                       currentBytes := currentBytes s - int (sizeB e) \<rparr>))
           else (Done (val e), s\<lparr> cacheMap := touchKey key (cacheMap s) \<rparr>))
      | None \<Rightarrow> (AwaitDisk, s))"

definition get_resume :: "string \<Rightarrow> jsval \<Rightarrow> cache \<Rightarrow> jsval \<times> cache" where
  "get_resume key diskVal s =
     (if diskVal \<noteq> Null
      then (let sz = estimateSize diskVal in
            (diskVal,
             evictIfNeeded DEFAULT_MAX_ITEMS DEFAULT_MAX_BYTES
               (s\<lparr> cacheMap := map_set key \<lparr> val = diskVal, sizeB = sz, expiresAt = None \<rparr> (cacheMap s),
                   currentBytes := currentBytes s + int sz \<rparr>)))
      else (Null, s))"

definition get :: "int \<Rightarrow> string \<Rightarrow> cache \<Rightarrow> jsval \<times> cache" where
  "get now key s =
     (case get_sync now key s of
        (Done v, s') \<Rightarrow> (v, s')
      | (AwaitDisk, s') \<Rightarrow> get_resume key (loadFromDisk s' key) s')"

text \<open>\<open>set(key, value, ttlMs)\<close>; the result is the returned boolean and the new state.\<close>

definition set_entry :: "int \<Rightarrow> string \<Rightarrow> jsval \<Rightarrow> int \<Rightarrow> cache \<Rightarrow> bool \<times> cache" where
  "set_entry now key v ttlMs s =
     (if key = [] then (False, s)
      else
        let sz = estimateSize v;
            exp = (if ttlMs \<noteq> 0 then Some (now + ttlMs) else None);
            s1 = (case map_of (cacheMap s) key of
                    Some prev \<Rightarrow> s\<lparr> cacheMap := map_delete key (cacheMap s),
                                    currentBytes := currentBytes s - int (sizeB prev) \<rparr>
                  | None \<Rightarrow> s);
            s2 = s1\<lparr> cacheMap := map_set key \<lparr> val = v, sizeB = sz, expiresAt = exp \<rparr> (cacheMap s1),
                     currentBytes := currentBytes s1 + int sz \<rparr>;
            s3 = evictIfNeeded DEFAULT_MAX_ITEMS DEFAULT_MAX_BYTES s2;
            s4 = (if sz \<le> MAX_PERSIST_BYTES
                  then persistToDisk now key
                         (Obj [(''value'', v),
                               (''meta'', Obj [(''ttl'', Num ttlMs), (''storedAt'', Num now)])]) s3
                  else s3)
        in (True, s4))"

definition del :: "string \<Rightarrow> cache \<Rightarrow> bool \<times> cache" where
  "del key s =
     (if key = [] then (False, s)
      else
        let s1 = (case map_of (cacheMap s) key of
                    Some e \<Rightarrow> s\<lparr> cacheMap := map_delete key (cacheMap s),
                                 currentBytes := currentBytes s - int (sizeB e) \<rparr>
                  | None \<Rightarrow> s)
        in (True, removeFromDisk key s1))"

definition clear :: "cache \<Rightarrow> cache" where
  "clear s = s\<lparr> cacheMap := [], currentBytes := 0, disk := Map.empty \<rparr>"

text \<open>One pass of the background cleanup installed by \<open>setInterval\<close>.\<close>

fun sweep_loop :: "int \<Rightarrow> (string \<times> entry) list \<Rightarrow> int \<Rightarrow> (string \<times> entry) list \<times> int" where
  "sweep_loop nowTs [] bytes = ([], bytes)"
| "sweep_loop nowTs (p # m) bytes =
     (if is_expired nowTs (snd p)
      then sweep_loop nowTs m (bytes - int (sizeB (snd p)))
      else (case sweep_loop nowTs m bytes of (m', b') \<Rightarrow> (p # m', b')))"

definition sweep :: "int \<Rightarrow> cache \<Rightarrow> cache" where
  "sweep nowTs s =
     (case sweep_loop nowTs (cacheMap s) (currentBytes s) of
        (m, b) \<Rightarrow> evictIfNeeded DEFAULT_MAX_ITEMS DEFAULT_MAX_BYTES (s\<lparr> cacheMap := m, currentBytes := b \<rparr>))"

subsection \<open>Notions used to state the properties of the cache\<close>

definition sum_sizes :: "(string \<times> entry) list \<Rightarrow> int" where
  "sum_sizes m = sum_list (map (\<lambda>p. int (sizeB (snd p))) m)"

text \<open>Keys are unique and the byte counter is the sum of the recorded sizes.\<close>

definition cache_inv :: "cache \<Rightarrow> bool" where
  "cache_inv s = (distinct (map fst (cacheMap s)) \<and> currentBytes s = sum_sizes (cacheMap s))"

definition within_limits :: "cache \<Rightarrow> bool" where
  "within_limits s = (length (cacheMap s) \<le> DEFAULT_MAX_ITEMS \<and> currentBytes s \<le> DEFAULT_MAX_BYTES)"

text \<open>A restart of the process: the module state starts afresh, the files of \<open>CACHE_DIR\<close> stay.\<close>

definition restart :: "cache \<Rightarrow> cache" where
  "restart s = \<lparr> cacheMap = [], currentBytes = 0, disk = disk s \<rparr>"

text \<open>
  Two calls \<open>get(key)\<close> issued one after the other without awaiting the first: each runs
  up to its \<open>await loadFromDisk(key)\<close>, both reads return the same file content, and the
  two continuations then run in the order of the calls.  The result is \<open>None\<close> when one
  of the calls is answered from memory and never reaches the suspension point.
\<close>

definition overlapped_gets :: "int \<Rightarrow> string \<Rightarrow> cache \<Rightarrow> ((jsval \<times> jsval) \<times> cache) option" where
  "overlapped_gets now key s =
     (case get_sync now key s of
        (AwaitDisk, s1) \<Rightarrow>
          (case get_sync now key s1 of
             (AwaitDisk, s2) \<Rightarrow>
               (let d = loadFromDisk s2 key in
                case get_resume key d s2 of
                  (v1, s3) \<Rightarrow> (case get_resume key d s3 of (v2, s4) \<Rightarrow> Some ((v1, v2), s4)))
           | (Done v, s2) \<Rightarrow> None)
      | (Done v, s1) \<Rightarrow> None)"

text \<open>What \<open>set("k", "v", 1000)\<close> at time 0 hands to \<open>persistToDisk\<close>.\<close>

definition wrapper_v :: jsval where
  "wrapper_v = Obj [(''value'', Str ''v''), (''meta'', Obj [(''ttl'', Num 1000), (''storedAt'', Num 0)])]"

text \<open>A cache holding \<open>DEFAULT_MAX_ITEMS\<close> one-byte entries under the keys \<open>a\<close>, \<open>aa\<close>, \<open>aaa\<close>, ...\<close>

definition key_n :: "nat \<Rightarrow> string" where
  "key_n n = replicate (Suc n) CHR ''a''"

definition full_cache :: cache where
  "full_cache = \<lparr> cacheMap = map (\<lambda>n. (key_n n, \<lparr> val = Str ''x'', sizeB = 1, expiresAt = None \<rparr>)) [0..<500],
                  currentBytes = 500, disk = Map.empty \<rparr>"

section \<open>Strings and characters\<close>

text \<open>
  The helpers below act on ASCII letters, digits and white space only; bytes above 127
  (the UTF-8 encoding of other characters) are never letters, digits or white space.
\<close>

definition code :: "char \<Rightarrow> nat" where
  "code c = of_char c"

definition upper_chars :: string where
  "upper_chars = ''ABCDEFGHIJKLMNOPQRSTUVWXYZ''"

definition lower_chars :: string where
  "lower_chars = ''abcdefghijklmnopqrstuvwxyz''"

definition digit_chars :: string where
  "digit_chars = ''0123456789''"

definition is_upper :: "char \<Rightarrow> bool" where
  "is_upper c = (c \<in> set upper_chars)"

definition is_lower :: "char \<Rightarrow> bool" where
  "is_lower c = (c \<in> set lower_chars)"

definition is_alpha :: "char \<Rightarrow> bool" where
  "is_alpha c = (is_upper c \<or> is_lower c)"

definition is_digit :: "char \<Rightarrow> bool" where
  "is_digit c = (c \<in> set digit_chars)"

definition is_alnum :: "char \<Rightarrow> bool" where
  "is_alnum c = (is_alpha c \<or> is_digit c)"

definition is_hex_digit :: "char \<Rightarrow> bool" where
  "is_hex_digit c = (c \<in> set ''0123456789abcdefABCDEF'')"

text \<open>\<open>\s\<close> and the characters removed by \<open>String.prototype.trim\<close>.\<close>

definition space_chars :: string where
  "space_chars = [CHR 0x09, CHR 0x0A, CHR 0x0B, CHR 0x0C, CHR 0x0D, CHR '' '']"

definition is_space :: "char \<Rightarrow> bool" where
  "is_space c = (c \<in> set space_chars)"

text \<open>\<open>\w\<close>.\<close>

definition word_chars :: string where
  "word_chars = lower_chars @ upper_chars @ digit_chars @ ''_''"

definition is_word :: "char \<Rightarrow> bool" where
  "is_word c = (c \<in> set word_chars)"

definition lower_char :: "char \<Rightarrow> char" where
  "lower_char c = (case map_of (zip upper_chars lower_chars) c of Some d \<Rightarrow> d | None \<Rightarrow> c)"

definition upper_char :: "char \<Rightarrow> char" where
  "upper_char c = (case map_of (zip lower_chars upper_chars) c of Some d \<Rightarrow> d | None \<Rightarrow> c)"

definition toLowerCase :: "string \<Rightarrow> string" where
  "toLowerCase s = map lower_char s"

definition trim :: "string \<Rightarrow> string" where
  "trim s = rev (dropWhile is_space (rev (dropWhile is_space s)))"

definition startsWith :: "string \<Rightarrow> string \<Rightarrow> bool" where
  "startsWith s p = (take (length p) s = p)"

text \<open>\<open>s.split(c)\<close> for a separator test \<open>p\<close>: the pieces between separators, empty ones kept.\<close>

fun split_on :: "(char \<Rightarrow> bool) \<Rightarrow> string \<Rightarrow> string list" where
  "split_on p [] = [[]]"
| "split_on p (c # cs) =
     (if p c then [] # split_on p cs
      else (case split_on p cs of x # xs \<Rightarrow> (c # x) # xs | [] \<Rightarrow> [[c]]))"

definition nat_of_digits :: "string \<Rightarrow> nat" where
  "nat_of_digits s = foldl (\<lambda>a c. 10 * a + (code c - 48)) 0 s"

definition hex_upper :: "nat \<Rightarrow> char" where
  "hex_upper n = (if n < 10 then char_of (48 + n) else char_of (55 + n))"

definition hex_value :: "char \<Rightarrow> nat" where
  "hex_value c =
     (if is_digit c then code c - 48
      else if is_upper c then code c - 55
      else code c - 87)"

text \<open>The percent-encoding \<open>%XX\<close> of one byte, with upper-case hexadecimal digits.\<close>

definition pct :: "char \<Rightarrow> string" where
  "pct c = [CHR ''%'', hex_upper (code c div 16), hex_upper (code c mod 16)]"

subsection \<open>\<open>encodeURIComponent\<close> and \<open>decodeURIComponent\<close>\<close>

text \<open>
  \<open>encodeURIComponent\<close> keeps \<open>A-Z a-z 0-9 - _ . ! ~ * ' ( )\<close> and percent-encodes every
  other byte of the UTF-8 encoding.  \<open>decodeURIComponent\<close> raises \<open>URIError\<close> (here
  \<open>None\<close>) on a \<open>%\<close> that is not followed by two hexadecimal digits.  It also checks that
  the decoded bytes are well-formed UTF-8; strings of the model stand for well-formed
  JavaScript strings and that check is not modelled.
\<close>

definition uri_unreserved :: "char \<Rightarrow> bool" where
  "uri_unreserved c = (is_alnum c \<or> c \<in> set ''-_.!~*'()'')"

definition encodeURIComponent :: "string \<Rightarrow> string" where
  "encodeURIComponent s = concat (map (\<lambda>c. if uri_unreserved c then [c] else pct c) s)"

fun decodeURIComponent :: "string \<Rightarrow> string option" where
  "decodeURIComponent [] = Some []"
| "decodeURIComponent (c # cs) =
     (if c = CHR ''%'' then
        (case cs of
           h # l # rest \<Rightarrow>
             (if is_hex_digit h \<and> is_hex_digit l
              then map_option ((#) (char_of (16 * hex_value h + hex_value l))) (decodeURIComponent rest)
              else None)
         | _ \<Rightarrow> None)
      else map_option ((#) c) (decodeURIComponent cs))"

section \<open>The platform's \<open>URL\<close> class\<close>

text \<open>
  \<open>new URL(input)\<close> and \<open>new URL(input, base)\<close> are not code of the repository; the
  functions below follow the URL Standard, which Node implements, on the following
  inputs.  The scheme is \<open>http\<close> or \<open>https\<close>; there are no credentials; the host is an
  ASCII domain without \<open>xn--\<close> labels, a dotted-decimal IPv4 address in canonical form, or
  the bracketed IPv6 literal \<open>[::]\<close> or \<open>[::h]\<close> with \<open>h\<close> one group of hexadecimal digits
  without leading zero.  On these inputs \<open>None\<close> means that the constructor throws.  Every
  other input is answered with \<open>None\<close> as well, although the platform may accept it (and
  would then normalise the host); no statement below relies on \<open>None\<close> for such an input.
\<close>

record url =
  protocol :: string
  hostname :: string
  port :: string
  path :: "string list"
  query :: "string option"
  fragment :: "string option"

definition pathname :: "url \<Rightarrow> string" where
  "pathname u = concat (map ((#) CHR ''/'') (path u))"

definition href :: "url \<Rightarrow> string" where
  "href u =
     protocol u @ ''//'' @ hostname u @ (if port u = [] then [] else CHR '':'' # port u)
     @ pathname u
     @ (case query u of None \<Rightarrow> [] | Some q \<Rightarrow> CHR ''?'' # q)
     @ (case fragment u of None \<Rightarrow> [] | Some f \<Rightarrow> CHR ''#'' # f)"

definition is_c0_or_space :: "char \<Rightarrow> bool" where
  "is_c0_or_space c = (code c \<le> 32)"

definition is_tab_or_newline :: "char \<Rightarrow> bool" where
  "is_tab_or_newline c = (code c = 9 \<or> code c = 10 \<or> code c = 13)"

definition is_slash :: "char \<Rightarrow> bool" where
  "is_slash c = (c = CHR ''/'' \<or> c = CHR 0x5C)"

definition clean_input :: "string \<Rightarrow> string" where
  "clean_input s =
     filter (\<lambda>c. \<not> is_tab_or_newline c)
       (rev (dropWhile is_c0_or_space (rev (dropWhile is_c0_or_space s))))"

definition is_scheme_char :: "char \<Rightarrow> bool" where
  "is_scheme_char c = (is_alnum c \<or> c = CHR ''+'' \<or> c = CHR ''-'' \<or> c = CHR ''.'')"

text \<open>The scheme, in lower case, and what follows its colon.\<close>

definition scan_scheme :: "string \<Rightarrow> (string \<times> string) option" where
  "scan_scheme s =
     (case s of
        [] \<Rightarrow> None
      | c # cs \<Rightarrow>
          (if is_alpha c then
             (case dropWhile is_scheme_char s of
                d # rest \<Rightarrow> (if d = CHR '':'' then Some (toLowerCase (takeWhile is_scheme_char s), rest) else None)
              | [] \<Rightarrow> None)
           else None))"

definition in_c0_or_above :: "char \<Rightarrow> bool" where
  "in_c0_or_above c = (code c \<le> 31 \<or> code c \<ge> 127)"

definition in_fragment_set :: "char \<Rightarrow> bool" where
  "in_fragment_set c = (in_c0_or_above c \<or> c \<in> set [CHR '' '', CHR 0x22, CHR ''<'', CHR ''>'', CHR 0x60])"

definition in_special_query_set :: "char \<Rightarrow> bool" where
  "in_special_query_set c =
     (in_c0_or_above c \<or> c \<in> set [CHR '' '', CHR 0x22, CHR ''#'', CHR ''<'', CHR ''>'', CHR 0x27])"

definition in_path_set :: "char \<Rightarrow> bool" where
  "in_path_set c =
     (in_c0_or_above c
      \<or> c \<in> set [CHR '' '', CHR 0x22, CHR ''#'', CHR ''<'', CHR ''>'', CHR ''?'', CHR 0x60, CHR ''{'', CHR ''}''])"

definition pct_encode :: "(char \<Rightarrow> bool) \<Rightarrow> string \<Rightarrow> string" where
  "pct_encode in_set s = concat (map (\<lambda>c. if in_set c then pct c else [c]) s)"

definition is_single_dot :: "string \<Rightarrow> bool" where
  "is_single_dot seg = (toLowerCase seg \<in> set [''.'', ''%2e''])"

definition is_double_dot :: "string \<Rightarrow> bool" where
  "is_double_dot seg = (toLowerCase seg \<in> set [''..'', ''.%2e'', ''%2e.'', ''%2e%2e''])"

text \<open>The path state: the segments so far, and the raw segments still to come.\<close>

fun path_state :: "string list \<Rightarrow> string list \<Rightarrow> string list" where
  "path_state segs [] = segs"
| "path_state segs (r # rs) =
     (if is_double_dot r then path_state (butlast segs @ (if rs = [] then [[]] else [])) rs
      else if is_single_dot r then path_state (segs @ (if rs = [] then [[]] else [])) rs
      else path_state (segs @ [pct_encode in_path_set r]) rs)"

definition not_query_or_fragment_start :: "char \<Rightarrow> bool" where
  "not_query_or_fragment_start c = (c \<noteq> CHR ''?'' \<and> c \<noteq> CHR ''#'')"

definition parse_fragment :: "string \<Rightarrow> string option" where
  "parse_fragment s =
     (case dropWhile (\<lambda>c. c \<noteq> CHR ''#'') s of
        [] \<Rightarrow> None
      | c # f \<Rightarrow> Some (pct_encode in_fragment_set f))"

definition parse_query :: "string \<Rightarrow> string option" where
  "parse_query s =
     (case dropWhile not_query_or_fragment_start s of
        [] \<Rightarrow> None
      | c # q \<Rightarrow>
          (if c = CHR ''?''
           then Some (pct_encode in_special_query_set (takeWhile (\<lambda>c. c \<noteq> CHR ''#'') q))
           else None))"

text \<open>Path, query and fragment of \<open>s\<close>, the path starting from the segments \<open>segs\<close>.\<close>

definition parse_tail :: "url \<Rightarrow> string list \<Rightarrow> string \<Rightarrow> url" where
  "parse_tail u segs s =
     u\<lparr> path := path_state segs (split_on is_slash (takeWhile not_query_or_fragment_start s)),
        query := parse_query s,
        fragment := parse_fragment s \<rparr>"

definition is_domain_char :: "char \<Rightarrow> bool" where
  "is_domain_char c = (is_alnum c \<or> c = CHR ''-'' \<or> c = CHR ''.'' \<or> c = CHR ''_'')"

definition is_octet :: "string \<Rightarrow> bool" where
  "is_octet p =
     (p \<noteq> [] \<and> list_all is_digit p \<and> length p \<le> 3 \<and> (length p = 1 \<or> hd p \<noteq> CHR ''0'')
      \<and> nat_of_digits p \<le> 255)"

text \<open>The host ends in a number, so that the platform parses it as an IPv4 address.\<close>

definition is_number_label :: "string \<Rightarrow> bool" where
  "is_number_label l =
     ((l \<noteq> [] \<and> list_all is_digit l)
      \<or> (startsWith (toLowerCase l) ''0x'' \<and> list_all is_hex_digit (drop 2 l)))"

definition drop_last_empty :: "string list \<Rightarrow> string list" where
  "drop_last_empty parts = (if parts \<noteq> [] \<and> last parts = [] then butlast parts else parts)"

definition ends_in_number :: "string \<Rightarrow> bool" where
  "ends_in_number h =
     (drop_last_empty (split_on (\<lambda>c. c = CHR ''.'') h) \<noteq> []
      \<and> is_number_label (last (drop_last_empty (split_on (\<lambda>c. c = CHR ''.'') h))))"

definition is_ipv4_canonical :: "string \<Rightarrow> bool" where
  "is_ipv4_canonical h =
     (length (split_on (\<lambda>c. c = CHR ''.'') h) = 4 \<and> list_all is_octet (split_on (\<lambda>c. c = CHR ''.'') h))"

definition is_ipv6_simple :: "string \<Rightarrow> bool" where
  "is_ipv6_simple body =
     (startsWith body ''::'' \<and> list_all is_hex_digit (drop 2 body) \<and> length (drop 2 body) \<le> 4
      \<and> (drop 2 body = [] \<or> hd (drop 2 body) \<noteq> CHR ''0''))"

definition parse_host :: "string \<Rightarrow> string option" where
  "parse_host h =
     (if h = [] then None
      else if hd h = CHR ''['' then
        (if last h = CHR '']'' \<and> is_ipv6_simple (butlast (tl h)) then Some (toLowerCase h) else None)
      else if \<not> list_all is_domain_char h then None
      else if list_ex (\<lambda>l. startsWith (toLowerCase l) ''xn--'') (split_on (\<lambda>c. c = CHR ''.'') h) then None
      else if ends_in_number h then (if is_ipv4_canonical h then Some h else None)
      else Some (toLowerCase h))"

definition default_port :: "string \<Rightarrow> nat" where
  "default_port scheme = (if scheme = ''http'' then 80 else 443)"

definition parse_port :: "string \<Rightarrow> string \<Rightarrow> string option" where
  "parse_port scheme p =
     (if \<not> list_all is_digit p then None
      else if p = [] then Some []
      else if nat_of_digits p > 65535 then None
      else if nat_of_digits p = default_port scheme then Some []
      else Some (showNat (nat_of_digits p)))"

definition not_authority_end :: "char \<Rightarrow> bool" where
  "not_authority_end c = (\<not> is_slash c \<and> c \<noteq> CHR ''?'' \<and> c \<noteq> CHR ''#'')"

text \<open>The host of an authority: up to the closing bracket of an IPv6 literal, or up to the first colon.\<close>

definition host_part :: "string \<Rightarrow> string" where
  "host_part auth =
     (if auth \<noteq> [] \<and> hd auth = CHR ''[''
      then takeWhile (\<lambda>c. c \<noteq> CHR '']'') auth @ take 1 (dropWhile (\<lambda>c. c \<noteq> CHR '']'') auth)
      else takeWhile (\<lambda>c. c \<noteq> CHR '':'') auth)"

definition make_url :: "string \<Rightarrow> string option \<Rightarrow> string option \<Rightarrow> string \<Rightarrow> url option" where
  "make_url scheme host prt rest =
     (case host of
        None \<Rightarrow> None
      | Some h \<Rightarrow>
          (case prt of
             None \<Rightarrow> None
           | Some p \<Rightarrow>
               Some (parse_tail
                 \<lparr> protocol = scheme @ '':'', hostname = h, port = p,
                   path = [], query = None, fragment = None \<rparr>
                 [] (if rest \<noteq> [] \<and> is_slash (hd rest) then tl rest else rest))))"

text \<open>\<open>auth\<close> is the authority, \<open>h\<close> its host part, \<open>after\<close> what follows the host in it, \<open>rest\<close> what follows the authority.\<close>

definition parse_authority_parts :: "string \<Rightarrow> string \<Rightarrow> string \<Rightarrow> string \<Rightarrow> string \<Rightarrow> url option" where
  "parse_authority_parts scheme auth h after rest =
     (if CHR ''@'' \<in> set auth then None
      else if after \<noteq> [] \<and> hd after \<noteq> CHR '':'' then None
      else make_url scheme (parse_host h) (parse_port scheme (drop 1 after)) rest)"

text \<open>The authority state and what follows it; \<open>s\<close> starts at the host.\<close>

definition parse_authority :: "string \<Rightarrow> string \<Rightarrow> url option" where
  "parse_authority scheme s =
     parse_authority_parts scheme
       (takeWhile not_authority_end s)
       (host_part (takeWhile not_authority_end s))
       (drop (length (host_part (takeWhile not_authority_end s))) (takeWhile not_authority_end s))
       (dropWhile not_authority_end s)"

text \<open>The relative state: \<open>s\<close> is resolved against the base \<open>b\<close>.\<close>

definition parse_relative :: "url \<Rightarrow> string \<Rightarrow> url option" where
  "parse_relative b s =
     (case s of
        [] \<Rightarrow> Some (b\<lparr> fragment := None \<rparr>)
      | c # cs \<Rightarrow>
          (if is_slash c then
             (if cs \<noteq> [] \<and> is_slash (hd cs)
              then parse_authority (butlast (protocol b)) (dropWhile is_slash cs)
              else Some (parse_tail b [] cs))
           else if c = CHR ''?'' then
             Some (b\<lparr> query := parse_query s, fragment := parse_fragment s \<rparr>)
           else if c = CHR ''#'' then
             Some (b\<lparr> fragment := parse_fragment s \<rparr>)
           else Some (parse_tail b (butlast (path b)) s)))"

text \<open>The parser on the input without its surrounding white space, tabs and newlines.\<close>

definition URL_parse_clean :: "string \<Rightarrow> url option \<Rightarrow> url option" where
  "URL_parse_clean s base =
     (case scan_scheme s of
        Some (scheme, rest) \<Rightarrow>
          (if scheme \<noteq> ''http'' \<and> scheme \<noteq> ''https'' then None
           else case base of
             Some b \<Rightarrow>
               (if protocol b = scheme @ '':'' then parse_relative b rest
                else parse_authority scheme (dropWhile is_slash rest))
           | None \<Rightarrow> parse_authority scheme (dropWhile is_slash rest))
      | None \<Rightarrow> (case base of None \<Rightarrow> None | Some b \<Rightarrow> parse_relative b s))"

definition URL_parse :: "string \<Rightarrow> url option \<Rightarrow> url option" where
  "URL_parse input base = URL_parse_clean (clean_input input) base"

text \<open>\<open>new URL(input)\<close> and \<open>new URL(input, base)\<close>, the base given as a string.\<close>

definition URL_new :: "string \<Rightarrow> url option" where
  "URL_new input = URL_parse input None"

definition URL_new2 :: "string \<Rightarrow> string \<Rightarrow> url option" where
  "URL_new2 input base =
     (case URL_parse base None of None \<Rightarrow> None | Some b \<Rightarrow> URL_parse input (Some b))"

subsection \<open>\<open>URLSearchParams\<close>\<close>

text \<open>
  The \<open>application/x-www-form-urlencoded\<close> parser and serialiser behind
  \<open>url.searchParams\<close>.  The list holds the decoded name-value pairs in order.
\<close>

fun percent_decode :: "string \<Rightarrow> string" where
  "percent_decode [] = []"
| "percent_decode (c # cs) =
     (case cs of
        h # l # rest \<Rightarrow>
          (if c = CHR ''%'' \<and> is_hex_digit h \<and> is_hex_digit l
           then char_of (16 * hex_value h + hex_value l) # percent_decode rest
           else c # percent_decode cs)
      | _ \<Rightarrow> c # percent_decode cs)"

definition form_decode :: "string \<Rightarrow> string" where
  "form_decode s = percent_decode (map (\<lambda>c. if c = CHR ''+'' then CHR '' '' else c) s)"

definition searchParams_parse :: "string \<Rightarrow> (string \<times> string) list" where
  "searchParams_parse q =
     map (\<lambda>seq. (form_decode (takeWhile (\<lambda>c. c \<noteq> CHR ''='') seq),
                 form_decode (drop 1 (dropWhile (\<lambda>c. c \<noteq> CHR ''='') seq))))
       (filter (\<lambda>seq. seq \<noteq> []) (split_on (\<lambda>c. c = CHR ''&'') q))"

definition form_encode :: "string \<Rightarrow> string" where
  "form_encode s =
     concat (map (\<lambda>c. if is_alnum c \<or> c \<in> set ''*-._'' then [c]
                      else if c = CHR '' '' then ''+'' else pct c) s)"

definition searchParams_serialize :: "(string \<times> string) list \<Rightarrow> string" where
  "searchParams_serialize l = intersperse ''&'' (map (\<lambda>(k, v). form_encode k @ ''='' @ form_encode v) l)"

definition searchParams :: "url \<Rightarrow> (string \<times> string) list" where
  "searchParams u = (case query u of None \<Rightarrow> [] | Some q \<Rightarrow> searchParams_parse q)"

text \<open>After a change of the list the query of the URL is its serialisation, or \<open>null\<close> when the list is empty.\<close>

definition searchParams_update :: "(string \<times> string) list \<Rightarrow> url \<Rightarrow> url" where
  "searchParams_update l u = u\<lparr> query := (if l = [] then None else Some (searchParams_serialize l)) \<rparr>"

definition searchParams_delete :: "string \<Rightarrow> (string \<times> string) list \<Rightarrow> (string \<times> string) list" where
  "searchParams_delete name l = filter (\<lambda>p. fst p \<noteq> name) l"

section \<open>Regular expressions\<close>

text \<open>
  The regular expressions of the sources are written as terms of the type \<open>regex\<close> and
  run by a backtracking matcher that follows ECMAScript: alternatives are tried from left
  to right, a greedy quantifier tries one more repetition before it tries to go on, a lazy
  one the other way round, a repetition that consumes nothing is not repeated, and the
  first success is the match.  With the flag \<open>i\<close> letters are compared without regard to
  their case.
\<close>

datatype regex =
    Chr char
  | Cls bool string
  | Eps
  | Seq regex regex
  | Alt regex regex
  | Star regex
  | StarLazy regex
  | Grp nat regex
  | Bref nat
  | Wordb
  | Bol

text \<open>\<open>Cls neg cs\<close> is the class \<open>[...]\<close> of the listed characters, or \<open>[^...]\<close> when \<open>neg\<close> holds.\<close>

definition Lit :: "string \<Rightarrow> regex" where
  "Lit s = foldr (\<lambda>c r. Seq (Chr c) r) s Eps"

fun Seqs :: "regex list \<Rightarrow> regex" where
  "Seqs [] = Eps"
| "Seqs [r] = r"
| "Seqs (r # rs) = Seq r (Seqs rs)"

fun Alts :: "regex list \<Rightarrow> regex" where
  "Alts [] = Eps"
| "Alts [r] = r"
| "Alts (r # rs) = Alt r (Alts rs)"

definition Plus :: "regex \<Rightarrow> regex" where
  "Plus r = Seq r (Star r)"

definition Opt :: "regex \<Rightarrow> regex" where
  "Opt r = Alt r Eps"

definition OneOf :: "string \<Rightarrow> regex" where
  "OneOf cs = Cls False cs"

definition NoneOf :: "string \<Rightarrow> regex" where
  "NoneOf cs = Cls True cs"

definition Space :: regex where
  "Space = Cls False space_chars"

definition Word :: regex where
  "Word = Cls False word_chars"

text \<open>\<open>[\s\S]\<close>.\<close>

definition AnyChar :: regex where
  "AnyChar = Cls True []"

text \<open>
  The flag \<open>i\<close>: a letter of the pattern stands for both of its cases, and a class holds
  both cases of its letters.  Back references compare without regard to case.
\<close>

definition case_variants :: "string \<Rightarrow> string" where
  "case_variants cs = concat (map (\<lambda>c. if is_alpha c then [lower_char c, upper_char c] else []) cs)"

fun ignore_case :: "regex \<Rightarrow> regex" where
  "ignore_case (Chr c) = (if is_alpha c then Cls False [lower_char c, upper_char c] else Chr c)"
| "ignore_case (Cls neg cs) = Cls neg (cs @ case_variants cs)"
| "ignore_case Eps = Eps"
| "ignore_case (Seq a b) = Seq (ignore_case a) (ignore_case b)"
| "ignore_case (Alt a b) = Alt (ignore_case a) (ignore_case b)"
| "ignore_case (Star r) = Star (ignore_case r)"
| "ignore_case (StarLazy r) = StarLazy (ignore_case r)"
| "ignore_case (Grp n r) = Grp n (ignore_case r)"
| "ignore_case (Bref n) = Bref n"
| "ignore_case Wordb = Wordb"
| "ignore_case Bol = Bol"

definition with_flags :: "bool \<Rightarrow> regex \<Rightarrow> regex" where
  "with_flags ci re = (if ci then ignore_case re else re)"

definition char_eq :: "bool \<Rightarrow> char \<Rightarrow> char \<Rightarrow> bool" where
  "char_eq ci x c = (x = c \<or> (ci \<and> lower_char x = lower_char c))"

text \<open>
  A state of the matcher: the character before the current position (\<open>None\<close> at the start
  of the input), the input from the current position on, and the groups captured so far,
  the latest first.
\<close>

type_synonym mstate = "char option \<times> string \<times> (nat \<times> string) list"

definition is_word_before :: "char option \<Rightarrow> bool" where
  "is_word_before p = (case p of None \<Rightarrow> False | Some c \<Rightarrow> is_word c)"

definition is_word_here :: "string \<Rightarrow> bool" where
  "is_word_here s = (case s of [] \<Rightarrow> False | c # cs \<Rightarrow> is_word c)"

definition last_or :: "char option \<Rightarrow> string \<Rightarrow> char option" where
  "last_or p t = (if t = [] then p else Some (last t))"

text \<open>
  All the ways in which \<open>r\<close> matches at a state, in the order in which backtracking tries
  them.  The pattern has been through \<open>with_flags\<close>; the flag \<open>ci\<close> is left for the back
  references.
\<close>

fun rmatch :: "bool \<Rightarrow> regex \<Rightarrow> mstate \<Rightarrow> mstate list" where
  "rmatch ci (Chr c) (p, s, caps) =
     (case s of [] \<Rightarrow> [] | x # xs \<Rightarrow> if x = c then [(Some x, xs, caps)] else [])"
| "rmatch ci (Cls neg cs) (p, s, caps) =
     (case s of [] \<Rightarrow> [] | x # xs \<Rightarrow> if (x \<in> set cs) \<noteq> neg then [(Some x, xs, caps)] else [])"
| "rmatch ci Eps st = [st]"
| "rmatch ci (Seq a b) st = concat (map (rmatch ci b) (rmatch ci a st))"
| "rmatch ci (Alt a b) st = rmatch ci a st @ rmatch ci b st"
| "rmatch ci (Star r) st =
     concat (map (\<lambda>st'. if length (fst (snd st')) < length (fst (snd st))
                         then rmatch ci (Star r) st' else [])
                 (rmatch ci r st)) @ [st]"
| "rmatch ci (StarLazy r) st =
     st # concat (map (\<lambda>st'. if length (fst (snd st')) < length (fst (snd st))
                              then rmatch ci (StarLazy r) st' else [])
                      (rmatch ci r st))"
| "rmatch ci (Grp n r) (p, s, caps) =
     map (\<lambda>(p', s', caps'). (p', s', (n, take (length s - length s') s) # caps'))
         (rmatch ci r (p, s, caps))"
| "rmatch ci (Bref n) (p, s, caps) =
     (case map_of caps n of
        None \<Rightarrow> [(p, s, caps)]
      | Some t \<Rightarrow>
          (if length t \<le> length s \<and> list_all2 (char_eq ci) (take (length t) s) t
           then [(last_or p (take (length t) s), drop (length t) s, caps)] else []))"
| "rmatch ci Wordb (p, s, caps) =
     (if is_word_before p \<noteq> is_word_here s then [(p, s, caps)] else [])"
| "rmatch ci Bol (p, s, caps) = (if p = None then [(p, s, caps)] else [])"

declare rmatch.simps [simp del]

definition match_here :: "bool \<Rightarrow> regex \<Rightarrow> char option \<Rightarrow> string \<Rightarrow> mstate option" where
  "match_here ci re p s = (case rmatch ci re (p, s, []) of [] \<Rightarrow> None | st # sts \<Rightarrow> Some st)"

text \<open>
  A match: the index where it starts, the matched text, the captured groups and the input
  after the match.
\<close>

record rx_match =
  index :: nat
  matched :: string
  groups :: "(nat \<times> string) list"
  after :: string

definition group :: "(nat \<times> string) list \<Rightarrow> nat \<Rightarrow> string option" where
  "group caps n = map_of caps n"

text \<open>The group as a string; a group that took no part in the match is \<open>undefined\<close>, here the empty string.\<close>

definition group_str :: "(nat \<times> string) list \<Rightarrow> nat \<Rightarrow> string" where
  "group_str caps n = (case map_of caps n of None \<Rightarrow> [] | Some t \<Rightarrow> t)"

text \<open>The leftmost match at or after the current position; \<open>i\<close> is the index of that position.\<close>

fun search_from :: "bool \<Rightarrow> regex \<Rightarrow> nat \<Rightarrow> char option \<Rightarrow> string \<Rightarrow> rx_match option" where
  "search_from ci re i p [] =
     (case match_here ci re p [] of
        None \<Rightarrow> None
      | Some (p', s', caps) \<Rightarrow> Some \<lparr> index = i, matched = [], groups = caps, after = [] \<rparr>)"
| "search_from ci re i p (c # cs) =
     (case match_here ci re p (c # cs) of
        None \<Rightarrow> search_from ci re (Suc i) (Some c) cs
      | Some (p', s', caps) \<Rightarrow>
          Some \<lparr> index = i, matched = take (length (c # cs) - length s') (c # cs),
                 groups = caps, after = s' \<rparr>)"

text \<open>\<open>re.exec(s)\<close> for a regular expression without the flag \<open>g\<close>, and \<open>re.test(s)\<close>.\<close>

definition exec :: "bool \<Rightarrow> regex \<Rightarrow> string \<Rightarrow> rx_match option" where
  "exec ci re s = search_from ci (with_flags ci re) 0 None s"

definition test :: "bool \<Rightarrow> regex \<Rightarrow> string \<Rightarrow> bool" where
  "test ci re s = (exec ci re s \<noteq> None)"

text \<open>
  \<open>re.exec(s)\<close> for a regular expression with the flag \<open>g\<close> whose \<open>lastIndex\<close> is \<open>li\<close>:
  the search starts at \<open>li\<close>.  The result comes with the new \<open>lastIndex\<close>: the end of the
  match, or 0 when there is none.
\<close>

definition exec_g :: "bool \<Rightarrow> regex \<Rightarrow> nat \<Rightarrow> string \<Rightarrow> rx_match option \<times> nat" where
  "exec_g ci re li s =
     (if li > length s then (None, 0)
      else case search_from ci (with_flags ci re) li (last_or None (take li s)) (drop li s) of
        None \<Rightarrow> (None, 0)
      | Some m \<Rightarrow> (Some m, index m + length (matched m)))"

text \<open>
  \<open>s.replace(re, f)\<close> for a regular expression with the flag \<open>g\<close> and a function \<open>f\<close> of
  the matched text and the groups: every match, from left to right, is replaced by the
  result of \<open>f\<close>.  After an empty match the search goes on one character further.
\<close>

function replace_all ::
  "bool \<Rightarrow> regex \<Rightarrow> (string \<Rightarrow> (nat \<times> string) list \<Rightarrow> string) \<Rightarrow> char option \<Rightarrow> string \<Rightarrow> string" where
  "replace_all ci re f p s =
     (case match_here ci re p s of
        None \<Rightarrow> (case s of [] \<Rightarrow> [] | c # cs \<Rightarrow> c # replace_all ci re f (Some c) cs)
      | Some (p', s', caps) \<Rightarrow>
          (if length s - length s' = 0
           then (case s of [] \<Rightarrow> f [] caps | c # cs \<Rightarrow> f [] caps @ c # replace_all ci re f (Some c) cs)
           else f (take (length s - length s') s) caps
                @ replace_all ci re f p' (drop (length s - length s') s)))"
  by pat_completeness auto
termination
  by (relation "measure (\<lambda>(ci, re, f, p, s). length s)") auto

declare replace_all.simps [simp del]

definition replace_g :: "bool \<Rightarrow> regex \<Rightarrow> (string \<Rightarrow> (nat \<times> string) list \<Rightarrow> string) \<Rightarrow> string \<Rightarrow> string" where
  "replace_g ci re f s = replace_all ci (with_flags ci re) f None s"

subsection \<open>\<open>String.prototype.replace\<close> with a string pattern\<close>

text \<open>
  \<open>s.replace(pat, repl)\<close> with two strings replaces the first occurrence of \<open>pat\<close>.  In
  \<open>repl\<close> the sequences \<open>$$\<close>, \<open>$&\<close>, \<open>$`\<close> and \<open>$'\<close> stand for a dollar sign, the matched
  text, the text before the match and the text after it.
\<close>

fun find_sub :: "string \<Rightarrow> string \<Rightarrow> (string \<times> string) option" where
  "find_sub pat [] = (if pat = [] then Some ([], []) else None)"
| "find_sub pat (c # cs) =
     (if startsWith (c # cs) pat then Some ([], drop (length pat) (c # cs))
      else map_option (\<lambda>(b, a). (c # b, a)) (find_sub pat cs))"

fun expand_dollar :: "string \<Rightarrow> string \<Rightarrow> string \<Rightarrow> string \<Rightarrow> string" where
  "expand_dollar m b a [] = []"
| "expand_dollar m b a [c] = [c]"
| "expand_dollar m b a (c # d # rest) =
     (if c = CHR ''$'' then
        (if d = CHR ''$'' then CHR ''$'' # expand_dollar m b a rest
         else if d = CHR ''&'' then m @ expand_dollar m b a rest
         else if d = CHR 0x60 then b @ expand_dollar m b a rest
         else if d = CHR 0x27 then a @ expand_dollar m b a rest
         else c # expand_dollar m b a (d # rest))
      else c # expand_dollar m b a (d # rest))"

definition replace_str :: "string \<Rightarrow> string \<Rightarrow> string \<Rightarrow> string" where
  "replace_str pat repl s =
     (case find_sub pat s of
        None \<Rightarrow> s
      | Some (b, a) \<Rightarrow> b @ expand_dollar pat b a repl @ a)"

section \<open>sanitize.js\<close>

text \<open>\<open>/^https?:\/\//i\<close>\<close>

definition http_prefix_re :: regex where
  "http_prefix_re = Seqs [Bol, Lit ''http'', Opt (Chr CHR ''s''), Lit ''://'']"

text \<open>\<open>/(<|>|script|javascript:)/i\<close>\<close>

definition injection_re :: regex where
  "injection_re = Grp 1 (Alts [Chr CHR ''<'', Chr CHR ''>'', Lit ''script'', Lit ''javascript:''])"

definition badHosts :: "string list" where
  "badHosts = [''localhost'', ''127.'', ''::1'', ''0.0.0.0'']"

text \<open>
  \<open>parsed.searchParams.forEach((v, k) => { if (...) parsed.searchParams.delete(k); })\<close>.
  \<open>forEach\<close> walks the list of pairs by index and reads the list again after every call
  of the callback, so a deletion moves the later pairs one place down under the index.
  \<open>delete\<close> removes every pair of that name and writes the list back to the query of the URL.
\<close>

function forEach_delete :: "nat \<Rightarrow> (string \<times> string) list \<Rightarrow> url \<Rightarrow> url" where
  "forEach_delete i l u =
     (if i < length l then
        (if test True injection_re (snd (l ! i))
         then forEach_delete (Suc i) (searchParams_delete (fst (l ! i)) l)
                (searchParams_update (searchParams_delete (fst (l ! i)) l) u)
         else forEach_delete (Suc i) l u)
      else u)"
  by pat_completeness auto
termination
proof (relation "measure (\<lambda>(i, l, u). length l - i)")
  show "wf (measure (\<lambda>(i, l, u). length l - i))" by simp
next
  fix i :: nat and l :: "(string \<times> string) list" and u :: url
  assume "i < length l"
  moreover have "length (searchParams_delete (fst (l ! i)) l) \<le> length l"
    by (simp add: searchParams_delete_def)
  ultimately show "((Suc i, searchParams_delete (fst (l ! i)) l,
           searchParams_update (searchParams_delete (fst (l ! i)) l) u), i, l, u)
         \<in> measure (\<lambda>(i, l, u). length l - i)"
    by simp
next
  fix i :: nat and l :: "(string \<times> string) list" and u :: url
  assume "i < length l"
  then show "((Suc i, l, u), i, l, u) \<in> measure (\<lambda>(i, l, u). length l - i)" by simp
qed

declare forEach_delete.simps [simp del]

text \<open>\<open>sanitizeURL\<close> from the statement \<open>const parsed = new URL(raw)\<close> on.\<close>

definition sanitize_parsed :: "url option \<Rightarrow> string option" where
  "sanitize_parsed parsed_or_error =
     (case parsed_or_error of
        None \<Rightarrow> None
      | Some parsed \<Rightarrow>
          (if list_ex (\<lambda>h. startsWith (toLowerCase (hostname parsed)) h) badHosts then None
           else Some (href (forEach_delete 0 (searchParams parsed) parsed))))"

definition add_scheme :: "string \<Rightarrow> string" where
  "add_scheme raw = (if \<not> test True http_prefix_re raw then ''https://'' @ raw else raw)"

text \<open>\<open>sanitizeURL(input)\<close> for a string \<open>input\<close>; \<open>None\<close> is the result \<open>null\<close>.\<close>

definition sanitizeURL :: "string \<Rightarrow> string option" where
  "sanitizeURL input = (if input = [] then None else sanitize_parsed (URL_new (add_scheme (trim input))))"

section \<open>validator.js\<close>

definition BLACKLIST_HOSTS :: "string list" where
  "BLACKLIST_HOSTS = [''127.0.0.1'', ''localhost'', ''::1'']"

definition isValidUrl :: "string \<Rightarrow> bool" where
  "isValidUrl str =
     (case URL_new str of
        None \<Rightarrow> False
      | Some parsed \<Rightarrow> protocol parsed = ''http:'' \<or> protocol parsed = ''https:'')"

definition isHostAllowed :: "string \<Rightarrow> bool" where
  "isHostAllowed host = (if host = [] then False else toLowerCase host \<notin> set BLACKLIST_HOSTS)"

text \<open>The result \<open>{ valid, reason }\<close> of \<open>validateUrl\<close>.\<close>

record validation =
  valid :: bool
  reason :: "string option"

definition validateUrl :: "string \<Rightarrow> validation" where
  "validateUrl urlStr =
     (if \<not> isValidUrl urlStr then \<lparr> valid = False, reason = Some ''Invalid URL'' \<rparr>
      else case URL_new urlStr of
        None \<Rightarrow> \<lparr> valid = False, reason = Some ''Invalid URL'' \<rparr>
      | Some parsed \<Rightarrow>
          (if \<not> isHostAllowed (hostname parsed)
           then \<lparr> valid = False, reason = Some ''Host is blacklisted'' \<rparr>
           else \<lparr> valid = True, reason = None \<rparr>))"

section \<open>config.js\<close>

text \<open>\<open>DEFAULTS.proxy.blockedHostnames\<close> when the environment does not set \<open>BLOCKED_HOSTNAMES\<close>.\<close>

definition blockedHostnames :: "string list" where
  "blockedHostnames = [''localhost'', ''127.0.0.1'', ''::1'', ''0.0.0.0'']"

definition isBlockedHostname :: "string \<Rightarrow> bool" where
  "isBlockedHostname h =
     (if h = [] then True
      else list_ex (\<lambda>b. b \<noteq> [] \<and> (toLowerCase h = toLowerCase b \<or> startsWith (toLowerCase h) (toLowerCase b)))
             blockedHostnames)"

section \<open>fetcher.js\<close>

definition DEFAULT_RETRIES :: int where
  "DEFAULT_RETRIES = 2"

definition BACKOFF_BASE :: nat where
  "BACKOFF_BASE = 300"

subsection \<open>The binding \<open>logger\<close>\<close>

text \<open>The names that \<open>logger.js\<close> exports (\<open>module.exports\<close>, lines 87 to 94).\<close>

definition logger_exports :: "string list" where
  "logger_exports = [''logInfo'', ''logWarn'', ''logError'', ''writeLog'', ''LOG_FILE'', ''LOG_DIR'']"

text \<open>
  \<open>fetcher.js\<close> binds \<open>logger\<close> at line 31 by \<open>const { logger } = require('./logger')\<close>, inside
  a \<open>try\<close> whose \<open>catch\<close> supplies an object with the key \<open>logger\<close>.  \<open>logger.js\<close> is part
  of the repository and loads, so the \<open>catch\<close> is not taken and \<open>logger\<close> is the export of
  that name: \<open>undefined\<close> when the module exports no such name.
\<close>

definition logger_bound :: bool where
  "logger_bound = (''logger'' \<in> set logger_exports)"

text \<open>
  What is thrown: \<open>Error msg\<close> is an \<open>Error\<close> with that message (made by \<open>new Error(msg)\<close>
  or raised by \<open>fetch\<close>), \<open>TypeError m\<close> the \<open>TypeError\<close> of reading the property \<open>m\<close> of
  \<open>undefined\<close>.
\<close>

datatype js_error = Error string | TypeError string

text \<open>A call \<open>logger.m(...)\<close>: it returns (\<open>None\<close>) or throws.\<close>

definition logger_call :: "string \<Rightarrow> js_error option" where
  "logger_call m = (if logger_bound then None else Some (TypeError m))"

subsection \<open>The retry loops\<close>

text \<open>
  What one call of \<open>fetch\<close> comes to: a response with its status, status text and body, or
  an exception (a network error, or the abort at the timeout; a failure of \<open>res.text()\<close>
  counts as one too).  The upstream is a function from the number of the attempt to its
  outcome.
\<close>

datatype outcome = Response nat string string | Failure string

definition res_ok :: "nat \<Rightarrow> bool" where
  "res_ok status = (200 \<le> status \<and> status \<le> 299)"

text \<open>
  \<open>isValidUrl(u)\<close> of \<open>fetcher.js\<close>: \<open>new URL(u)\<close> does not throw.  The parser of the
  platform is the parameter \<open>parse\<close>.
\<close>

definition fetcher_isValidUrl :: "(string \<Rightarrow> url option) \<Rightarrow> string \<Rightarrow> bool" where
  "fetcher_isValidUrl parse u = (parse u \<noteq> None)"

text \<open>
  The ways in which the \<open>try\<close> block of one round of a loop ends: the function returns,
  the round ends at \<open>continue\<close> with \<open>lastErr\<close> set (after the sleep), or an exception
  reaches the \<open>catch\<close> of the block.
\<close>

datatype 'a round = Returned 'a | Continue js_error | Caught js_error

text \<open>
  The \<open>try\<close> block of \<open>fetchText\<close>, lines 92 to 107, in round \<open>attempt\<close>.  The statement
  \<open>throw new Error(msg)\<close> stands inside the block, so the \<open>catch\<close> of the block receives it.
\<close>

definition fetchText_try :: "int \<Rightarrow> nat \<Rightarrow> outcome \<Rightarrow> string round" where
  "fetchText_try retries attempt out =
     (case out of
        Response status statusText body \<Rightarrow>
          (if \<not> res_ok status then
             (if status \<ge> 500 \<and> int attempt \<le> retries
              then Continue (Error (''fetchText got '' @ showNat status @ '' '' @ statusText))
              else Caught (Error (''fetchText got '' @ showNat status @ '' '' @ statusText)))
           else Returned body)
      | Failure err \<Rightarrow> Caught (Error err))"

text \<open>
  The retry loop of \<open>fetchText\<close>, lines 85 to 115.  The result is the returned text
  (\<open>Inr\<close>) or what is thrown (\<open>Inl\<close>, \<open>None\<close> for \<open>undefined\<close>), the number of attempts
  made and the delays slept.  The \<open>catch\<close> sets \<open>lastErr\<close>, calls \<open>logger.logWarn\<close>, and
  sleeps when an attempt is left; an exception of \<open>logger.logWarn\<close> leaves the function.
\<close>

function fetchText_loop ::
  "(nat \<Rightarrow> outcome) \<Rightarrow> int \<Rightarrow> nat \<Rightarrow> js_error option \<Rightarrow> nat list
   \<Rightarrow> (js_error option + string) \<times> nat \<times> nat list" where
  "fetchText_loop upstream retries attempt lastErr sleeps =
     (if int attempt \<le> retries then
        (case fetchText_try retries (Suc attempt) (upstream (Suc attempt)) of
           Returned text \<Rightarrow> (Inr text, Suc attempt, sleeps)
         | Continue e \<Rightarrow>
             fetchText_loop upstream retries (Suc attempt) (Some e) (sleeps @ [BACKOFF_BASE * Suc attempt])
         | Caught e \<Rightarrow>
             (case logger_call ''logWarn'' of
                Some thrown \<Rightarrow> (Inl (Some thrown), Suc attempt, sleeps)
              | None \<Rightarrow>
                  fetchText_loop upstream retries (Suc attempt) (Some e)
                    (if int (Suc attempt) \<le> retries then sleeps @ [BACKOFF_BASE * Suc attempt] else sleeps)))
      else (Inl lastErr, attempt, sleeps))"
  by pat_completeness auto
termination
  by (relation "measure (\<lambda>(upstream, retries, attempt, lastErr, sleeps). nat (retries + 1 - int attempt))") auto

declare fetchText_loop.simps [simp del]

text \<open>
  \<open>fetchText(url, opts)\<close> with \<open>opts.useCache === false\<close>, so that no cache lookup comes
  before the loop; \<open>retries\<close> is \<open>opts.retries\<close> when that is a number.
\<close>

definition fetchText ::
  "(string \<Rightarrow> url option) \<Rightarrow> (nat \<Rightarrow> outcome) \<Rightarrow> int option \<Rightarrow> string
   \<Rightarrow> (js_error option + string) \<times> nat \<times> nat list" where
  "fetchText parse upstream retries u =
     (if \<not> fetcher_isValidUrl parse u then (Inl (Some (Error ''Invalid URL'')), 0, [])
      else fetchText_loop upstream (case retries of Some r \<Rightarrow> r | None \<Rightarrow> DEFAULT_RETRIES) 0 None [])"

text \<open>What \<open>streamToResponse\<close> hands to the response: a status with a message, or the streamed body.\<close>

datatype sink = Sent nat string | Streamed string

text \<open>
  The \<open>try\<close> block of \<open>streamToResponse\<close>, lines 161 to 228, for \<open>opts.useCache === false\<close>:
  the body is piped to the response and nothing is captured for the cache.
\<close>

definition streamToResponse_try :: "string \<Rightarrow> int \<Rightarrow> nat \<Rightarrow> outcome \<Rightarrow> sink round" where
  "streamToResponse_try u retries attempt out =
     (case out of
        Response status statusText body \<Rightarrow>
          (if \<not> res_ok status then
             (if status \<ge> 500 \<and> int attempt \<le> retries
              then Continue (Error (''Failed to fetch '' @ u @ '' - '' @ showNat status))
              else Returned (Sent status (''Upstream error: '' @ showNat status)))
           else Returned (Streamed body))
      | Failure err \<Rightarrow> Caught (Error err))"

text \<open>
  The retry loop of \<open>streamToResponse\<close>, lines 154 to 237: what the response receives
  (\<open>Inr\<close>) or what is thrown (\<open>Inl\<close>), the number of attempts and the delays.  After the
  loop \<open>logger.logError\<close> is called before \<open>res.status(502)\<close>.
\<close>

function streamToResponse_loop ::
  "string \<Rightarrow> (nat \<Rightarrow> outcome) \<Rightarrow> int \<Rightarrow> nat \<Rightarrow> js_error option \<Rightarrow> nat list
   \<Rightarrow> (js_error + sink) \<times> nat \<times> nat list" where
  "streamToResponse_loop u upstream retries attempt lastErr sleeps =
     (if int attempt \<le> retries then
        (case streamToResponse_try u retries (Suc attempt) (upstream (Suc attempt)) of
           Returned r \<Rightarrow> (Inr r, Suc attempt, sleeps)
         | Continue e \<Rightarrow>
             streamToResponse_loop u upstream retries (Suc attempt) (Some e)
               (sleeps @ [BACKOFF_BASE * Suc attempt])
         | Caught e \<Rightarrow>
             (case logger_call ''logWarn'' of
                Some thrown \<Rightarrow> (Inl thrown, Suc attempt, sleeps)
              | None \<Rightarrow>
                  streamToResponse_loop u upstream retries (Suc attempt) (Some e)
                    (if int (Suc attempt) \<le> retries then sleeps @ [BACKOFF_BASE * Suc attempt] else sleeps)))
      else (case logger_call ''logError'' of
              Some thrown \<Rightarrow> (Inl thrown, attempt, sleeps)
            | None \<Rightarrow> (Inr (Sent 502 ''Failed to fetch resource''), attempt, sleeps)))"
  by pat_completeness auto
termination
  by (relation "measure (\<lambda>(u, upstream, retries, attempt, lastErr, sleeps). nat (retries + 1 - int attempt))") auto

declare streamToResponse_loop.simps [simp del]

definition streamToResponse ::
  "(string \<Rightarrow> url option) \<Rightarrow> (nat \<Rightarrow> outcome) \<Rightarrow> int option \<Rightarrow> string
   \<Rightarrow> (js_error + sink) \<times> nat \<times> nat list" where
  "streamToResponse parse upstream retries u =
     (if \<not> fetcher_isValidUrl parse u then (Inr (Sent 400 ''Invalid URL''), 0, [])
      else streamToResponse_loop u upstream (case retries of Some r \<Rightarrow> r | None \<Rightarrow> DEFAULT_RETRIES) 0 None [])"
section \<open>rewrite.js\<close>

definition safeResolve :: "string \<Rightarrow> string \<Rightarrow> string" where
  "safeResolve link base = (case URL_new2 link base of Some u \<Rightarrow> href u | None \<Rightarrow> link)"

definition escapeAttr :: "string \<Rightarrow> string" where
  "escapeAttr s =
     concat (map (\<lambda>c. if c = CHR 0x22 then ''&quot;'' else if c = CHR 0x27 then ''&#39;'' else [c]) s)"

text \<open>The options of the rewriters, with the defaults of \<open>rewriteHtml\<close>.\<close>

record rewrite_cfg =
  proxyPath :: string
  resourcePath :: string
  aggressiveSanitize :: bool

definition default_cfg :: rewrite_cfg where
  "default_cfg = \<lparr> proxyPath = ''/proxy?url='', resourcePath = ''/resource?url='', aggressiveSanitize = False \<rparr>"

definition quote_chars :: string where
  "quote_chars = [CHR 0x27, CHR 0x22]"

definition js_quote_chars :: string where
  "js_quote_chars = [CHR 0x27, CHR 0x22, CHR 0x60]"

text \<open>\<open>s.replace(/['"]/g, '')\<close>\<close>

definition strip_quotes :: "string \<Rightarrow> string" where
  "strip_quotes s = filter (\<lambda>c. c \<notin> set quote_chars) s"

subsection \<open>\<open>rewriteCss\<close>\<close>

text \<open>\<open>/url\(([^)]+)\)/gi\<close>\<close>

definition css_url_re :: regex where
  "css_url_re = Seqs [Lit ''url('', Grp 1 (Plus (NoneOf '')'')), Chr CHR '')'']"

text \<open>\<open>/^data:/\<close>, without the flag \<open>i\<close>\<close>

definition data_re :: regex where
  "data_re = Seqs [Bol, Lit ''data:'']"

text \<open>\<open>/@import\s+(?:url\()?['"]?([^'"\)]+)['"]?\)?/gi\<close>\<close>

definition css_import_re :: regex where
  "css_import_re =
     Seqs [Lit ''@import'', Plus Space, Opt (Lit ''url(''), Opt (OneOf quote_chars),
           Grp 1 (Plus (NoneOf (quote_chars @ '')''))), Opt (OneOf quote_chars), Opt (Chr CHR '')'')]"

text \<open>The callback of the \<open>url(...)\<close> rewrite, given the cleaned content of the parentheses.\<close>

definition css_url_rewrite :: "string \<Rightarrow> string \<Rightarrow> string \<Rightarrow> string" where
  "css_url_rewrite baseUrl resPath cleaned =
     (if test False data_re cleaned then ''url('' @ cleaned @ '')''
      else ''url('' @ resPath @ encodeURIComponent (safeResolve cleaned baseUrl) @ '')'')"

definition css_url_callback :: "string \<Rightarrow> string \<Rightarrow> string \<Rightarrow> (nat \<times> string) list \<Rightarrow> string" where
  "css_url_callback baseUrl resPath m caps =
     css_url_rewrite baseUrl resPath (trim (strip_quotes (group_str caps 1)))"

definition css_import_callback :: "string \<Rightarrow> string \<Rightarrow> string \<Rightarrow> (nat \<times> string) list \<Rightarrow> string" where
  "css_import_callback baseUrl resPath m caps =
     ''@import url('' @ [CHR 0x22] @ resPath @ encodeURIComponent (safeResolve (group_str caps 1) baseUrl)
       @ [CHR 0x22] @ '')''"

definition rewriteCss :: "string \<Rightarrow> string \<Rightarrow> rewrite_cfg \<Rightarrow> string" where
  "rewriteCss cssText baseUrl cfg =
     (if cssText = [] \<or> baseUrl = [] then cssText
      else replace_g True css_import_re (css_import_callback baseUrl (resourcePath cfg))
             (replace_g True css_url_re (css_url_callback baseUrl (resourcePath cfg)) cssText))"

subsection \<open>\<open>rewriteJs\<close>\<close>

text \<open>\<open>/fetch\s*\(\s*(['"`])([^'"`]+)\1/gi\<close>\<close>

definition js_fetch_re :: regex where
  "js_fetch_re =
     Seqs [Lit ''fetch'', Star Space, Chr CHR ''('', Star Space, Grp 1 (OneOf js_quote_chars),
           Grp 2 (Plus (NoneOf js_quote_chars)), Bref 1]"

text \<open>\<open>/open\s*\(\s*(['"`])?(GET|POST|PUT|DELETE|PATCH)['"]?\s*,\s*(['"`])([^'"`]+)\3/gi\<close>\<close>

definition js_open_re :: regex where
  "js_open_re =
     Seqs [Lit ''open'', Star Space, Chr CHR ''('', Star Space, Opt (Grp 1 (OneOf js_quote_chars)),
           Grp 2 (Alts [Lit ''GET'', Lit ''POST'', Lit ''PUT'', Lit ''DELETE'', Lit ''PATCH'']),
           Opt (OneOf quote_chars), Star Space, Chr CHR '','', Star Space,
           Grp 3 (OneOf js_quote_chars), Grp 4 (Plus (NoneOf js_quote_chars)), Bref 3]"

text \<open>\<open>/(\.src\s*=\s*['"`])([^'"`]+)(['"`])/gi\<close>\<close>

definition js_src_re :: regex where
  "js_src_re =
     Seqs [Grp 1 (Seqs [Lit ''.src'', Star Space, Chr CHR ''='', Star Space, OneOf js_quote_chars]),
           Grp 2 (Plus (NoneOf js_quote_chars)), Grp 3 (OneOf js_quote_chars)]"

text \<open>\<open>/import\s*\(\s*(['"`])([^'"`]+)\1\s*\)/gi\<close>\<close>

definition js_import_re :: regex where
  "js_import_re =
     Seqs [Lit ''import'', Star Space, Chr CHR ''('', Star Space, Grp 1 (OneOf js_quote_chars),
           Grp 2 (Plus (NoneOf js_quote_chars)), Bref 1, Star Space, Chr CHR '')'']"

definition js_fetch_callback :: "string \<Rightarrow> string \<Rightarrow> string \<Rightarrow> (nat \<times> string) list \<Rightarrow> string" where
  "js_fetch_callback baseUrl pp m caps =
     ''fetch('' @ group_str caps 1 @ pp
     @ encodeURIComponent (safeResolve (group_str caps 2) baseUrl) @ group_str caps 1"

definition js_open_callback :: "string \<Rightarrow> string \<Rightarrow> string \<Rightarrow> (nat \<times> string) list \<Rightarrow> string" where
  "js_open_callback baseUrl pp m caps =
     replace_str (group_str caps 4) (pp @ encodeURIComponent (safeResolve (group_str caps 4) baseUrl)) m"

definition js_src_callback :: "string \<Rightarrow> string \<Rightarrow> string \<Rightarrow> (nat \<times> string) list \<Rightarrow> string" where
  "js_src_callback baseUrl pp m caps =
     group_str caps 1 @ pp
     @ encodeURIComponent (safeResolve (group_str caps 2) baseUrl) @ group_str caps 3"

definition js_import_callback :: "string \<Rightarrow> string \<Rightarrow> string \<Rightarrow> (nat \<times> string) list \<Rightarrow> string" where
  "js_import_callback baseUrl pp m caps =
     ''import('' @ group_str caps 1 @ pp
     @ encodeURIComponent (safeResolve (group_str caps 2) baseUrl) @ group_str caps 1 @ '')''"

text \<open>The four replacements of \<open>rewriteJs\<close>, in the order of the source, with \<open>pp\<close> the proxy prefix.\<close>

definition rewriteJs_passes :: "string \<Rightarrow> string \<Rightarrow> string \<Rightarrow> string" where
  "rewriteJs_passes baseUrl pp jsText =
     replace_g True js_import_re (js_import_callback baseUrl pp)
       (replace_g True js_src_re (js_src_callback baseUrl pp)
          (replace_g True js_open_re (js_open_callback baseUrl pp)
             (replace_g True js_fetch_re (js_fetch_callback baseUrl pp) jsText)))"

definition rewriteJs :: "string \<Rightarrow> string \<Rightarrow> rewrite_cfg \<Rightarrow> string" where
  "rewriteJs jsText baseUrl cfg =
     (if jsText = [] \<or> baseUrl = [] then jsText
      else rewriteJs_passes baseUrl (if proxyPath cfg = [] then ''/proxy?url='' else proxyPath cfg) jsText)"

subsection \<open>\<open>rewriteHtml\<close>\<close>

text \<open>\<open>/<base[^>]*>/gi\<close>\<close>

definition base_tag_re :: regex where
  "base_tag_re = Seqs [Lit ''<base'', Star (NoneOf ''>''), Chr CHR ''>'']"

text \<open>\<open>/<meta[^>]+http-equiv=["']?refresh["']?[^>]*>/gi\<close>\<close>

definition meta_refresh_re :: regex where
  "meta_refresh_re =
     Seqs [Lit ''<meta'', Plus (NoneOf ''>''), Lit ''http-equiv='', Opt (OneOf [CHR 0x22, CHR 0x27]),
           Lit ''refresh'', Opt (OneOf [CHR 0x22, CHR 0x27]), Star (NoneOf ''>''), Chr CHR ''>'']"

text \<open>\<open>/content=["']?([^"'>]+)["']?/i\<close>\<close>

definition meta_content_re :: regex where
  "meta_content_re =
     Seqs [Lit ''content='', Opt (OneOf [CHR 0x22, CHR 0x27]),
           Grp 1 (Plus (NoneOf [CHR 0x22, CHR 0x27, CHR ''>''])), Opt (OneOf [CHR 0x22, CHR 0x27])]"

text \<open>\<open>/^url=/i\<close>\<close>

definition url_eq_re :: regex where
  "url_eq_re = Seqs [Bol, Lit ''url='']"

text \<open>\<open>/<(img|script|iframe|audio|video|source|link|embed|object)\b([^>]*)>/gi\<close>\<close>

definition tag_re :: regex where
  "tag_re =
     Seqs [Chr CHR ''<'',
           Grp 1 (Alts [Lit ''img'', Lit ''script'', Lit ''iframe'', Lit ''audio'', Lit ''video'',
                        Lit ''source'', Lit ''link'', Lit ''embed'', Lit ''object'']),
           Wordb, Grp 2 (Star (NoneOf ''>'')), Chr CHR ''>'']"

text \<open>\<open>/\bsrc=(['"])([^'"]+)\1/gi\<close>, and the same for \<open>href\<close> and \<open>srcset\<close>\<close>

definition attr_re :: "string \<Rightarrow> regex" where
  "attr_re name =
     Seqs [Wordb, Lit name, Chr CHR ''='', Grp 1 (OneOf quote_chars), Grp 2 (Plus (NoneOf quote_chars)), Bref 1]"

text \<open>\<open>/rel\s*=\s*['"]?stylesheet['"]?/i\<close>\<close>

definition rel_stylesheet_re :: regex where
  "rel_stylesheet_re =
     Seqs [Lit ''rel'', Star Space, Chr CHR ''='', Star Space, Opt (OneOf quote_chars),
           Lit ''stylesheet'', Opt (OneOf quote_chars)]"

text \<open>\<open>/sandbox=/i\<close>\<close>

definition sandbox_re :: regex where
  "sandbox_re = Lit ''sandbox=''"

text \<open>\<open>/style=(['"])([^'"]*?)\1/gi\<close>\<close>

definition style_attr_re :: regex where
  "style_attr_re =
     Seqs [Lit ''style='', Grp 1 (OneOf quote_chars), Grp 2 (StarLazy (NoneOf quote_chars)), Bref 1]"

text \<open>\<open>/<style[^>]*>([\s\S]*?)<\/style>/gi\<close>\<close>

definition style_block_re :: regex where
  "style_block_re =
     Seqs [Lit ''<style'', Star (NoneOf ''>''), Chr CHR ''>'', Grp 1 (StarLazy AnyChar), Lit ''</style>'']"

text \<open>\<open>/<script\b([^>]*)>([\s\S]*?)<\/script>/gi\<close>\<close>

definition script_block_re :: regex where
  "script_block_re =
     Seqs [Lit ''<script'', Wordb, Grp 1 (Star (NoneOf ''>'')), Chr CHR ''>'',
           Grp 2 (StarLazy AnyChar), Lit ''</script>'']"

text \<open>\<open>/\son\w+=(['"])[\s\S]*?\1/gi\<close>\<close>

definition on_handler_re :: regex where
  "on_handler_re =
     Seqs [Space, Lit ''on'', Plus Word, Chr CHR ''='', Grp 1 (OneOf quote_chars), StarLazy AnyChar, Bref 1]"

text \<open>
  The callback of the rewrite of \<open>meta http-equiv="refresh"\<close>: \<open>parts\<close> are the trimmed
  pieces of the \<open>content\<close> attribute, \<open>urlPart\<close> the first of them that starts with \<open>url=\<close>.
\<close>

definition meta_refresh_tag :: "string \<Rightarrow> rewrite_cfg \<Rightarrow> string list \<Rightarrow> string \<Rightarrow> string" where
  "meta_refresh_tag baseUrl cfg parts urlPart =
     ''<meta http-equiv='' @ [CHR 0x22] @ ''refresh'' @ [CHR 0x22] @ '' content='' @ [CHR 0x22]
     @ escapeAttr (hd parts) @ ''; url=''
     @ escapeAttr (proxyPath cfg
         @ encodeURIComponent (safeResolve (split_on (\<lambda>c. c = CHR ''='') urlPart ! 1) baseUrl))
     @ [CHR 0x22] @ ''>''"

definition meta_refresh_parts :: "string \<Rightarrow> rewrite_cfg \<Rightarrow> string \<Rightarrow> string list \<Rightarrow> string" where
  "meta_refresh_parts baseUrl cfg m parts =
     (case find (test True url_eq_re) parts of
        None \<Rightarrow> m
      | Some urlPart \<Rightarrow> meta_refresh_tag baseUrl cfg parts urlPart)"

definition meta_refresh_callback :: "string \<Rightarrow> rewrite_cfg \<Rightarrow> string \<Rightarrow> (nat \<times> string) list \<Rightarrow> string" where
  "meta_refresh_callback baseUrl cfg m caps =
     (case exec True meta_content_re m of
        None \<Rightarrow> []
      | Some contentMatch \<Rightarrow>
          meta_refresh_parts baseUrl cfg m
            (map trim (split_on (\<lambda>c. c = CHR '';'') (group_str (groups contentMatch) 1))))"

text \<open>\<open>p.split(/\s+/)\<close> for a trimmed string \<open>p\<close>: the pieces between runs of white space.\<close>

definition split_spaces :: "string \<Rightarrow> string list" where
  "split_spaces p = (case filter (\<lambda>w. w \<noteq> []) (split_on is_space p) of [] \<Rightarrow> [[]] | ws \<Rightarrow> ws)"

text \<open>One candidate of a \<open>srcset\<close>: \<open>ws\<close> are its pieces, the URL first and the descriptor second.\<close>

definition srcset_part :: "string \<Rightarrow> rewrite_cfg \<Rightarrow> string list \<Rightarrow> string" where
  "srcset_part baseUrl cfg ws =
     resourcePath cfg @ encodeURIComponent (safeResolve (hd ws) baseUrl)
     @ (if length ws > 1 \<and> ws ! 1 \<noteq> [] then '' '' @ ws ! 1 else [])"

definition srcset_callback :: "string \<Rightarrow> rewrite_cfg \<Rightarrow> string \<Rightarrow> (nat \<times> string) list \<Rightarrow> string" where
  "srcset_callback baseUrl cfg m2 caps =
     ''srcset='' @ [CHR 0x22]
     @ escapeAttr (intersperse '', ''
         (map (\<lambda>p. srcset_part baseUrl cfg (split_spaces (trim p)))
              (split_on (\<lambda>c. c = CHR '','') (group_str caps 2))))
     @ [CHR 0x22]"

text \<open>The callback for \<open>src\<close>, given the resolved URL \<open>absUrl\<close> (\<open>abs\<close> in the source).\<close>

definition src_rewrite :: "rewrite_cfg \<Rightarrow> string \<Rightarrow> string \<Rightarrow> string \<Rightarrow> string" where
  "src_rewrite cfg tag m2 absUrl =
     (if test True http_prefix_re absUrl then
        (if tag = ''script'' \<or> tag = ''iframe'' \<or> tag = ''embed'' \<or> tag = ''object''
         then ''src='' @ [CHR 0x22] @ proxyPath cfg @ encodeURIComponent absUrl @ [CHR 0x22]
         else ''src='' @ [CHR 0x22] @ resourcePath cfg @ encodeURIComponent absUrl @ [CHR 0x22])
      else m2)"

definition src_callback :: "string \<Rightarrow> rewrite_cfg \<Rightarrow> string \<Rightarrow> string \<Rightarrow> (nat \<times> string) list \<Rightarrow> string" where
  "src_callback baseUrl cfg tag m2 caps = src_rewrite cfg tag m2 (safeResolve (group_str caps 2) baseUrl)"

text \<open>The callback for \<open>href\<close>, given the resolved URL; \<open>newAttrs\<close> are the attributes after the rewrite of \<open>src\<close>.\<close>

definition href_rewrite :: "rewrite_cfg \<Rightarrow> string \<Rightarrow> string \<Rightarrow> string \<Rightarrow> string" where
  "href_rewrite cfg newAttrs m2 absUrl =
     (if absUrl = [] then m2
      else if test True rel_stylesheet_re newAttrs
      then ''href='' @ [CHR 0x22] @ resourcePath cfg @ encodeURIComponent absUrl @ [CHR 0x22]
      else ''href='' @ [CHR 0x22] @ proxyPath cfg @ encodeURIComponent absUrl @ [CHR 0x22])"

definition href_callback :: "string \<Rightarrow> rewrite_cfg \<Rightarrow> string \<Rightarrow> string \<Rightarrow> (nat \<times> string) list \<Rightarrow> string" where
  "href_callback baseUrl cfg newAttrs m2 caps =
     href_rewrite cfg newAttrs m2 (safeResolve (group_str caps 2) baseUrl)"

text \<open>The statements of the callback for one tag, each on the attributes left by the one before.\<close>

definition rewrite_src :: "string \<Rightarrow> rewrite_cfg \<Rightarrow> string \<Rightarrow> string \<Rightarrow> string" where
  "rewrite_src baseUrl cfg tag attrs = replace_g True (attr_re ''src'') (src_callback baseUrl cfg tag) attrs"

definition rewrite_href :: "string \<Rightarrow> rewrite_cfg \<Rightarrow> string \<Rightarrow> string" where
  "rewrite_href baseUrl cfg attrs = replace_g True (attr_re ''href'') (href_callback baseUrl cfg attrs) attrs"

definition rewrite_srcset :: "string \<Rightarrow> rewrite_cfg \<Rightarrow> string \<Rightarrow> string" where
  "rewrite_srcset baseUrl cfg attrs = replace_g True (attr_re ''srcset'') (srcset_callback baseUrl cfg) attrs"

definition add_sandbox :: "string \<Rightarrow> string \<Rightarrow> string" where
  "add_sandbox tag attrs =
     (if tag = ''iframe'' \<and> \<not> test True sandbox_re attrs
      then attrs @ '' sandbox='' @ [CHR 0x22] @ ''allow-scripts allow-forms allow-same-origin'' @ [CHR 0x22]
      else attrs)"

text \<open>The callback for one tag: \<open>tag\<close> and \<open>attrs\<close> are the groups 1 and 2 of the tag pattern.\<close>

definition tag_callback :: "string \<Rightarrow> rewrite_cfg \<Rightarrow> string \<Rightarrow> (nat \<times> string) list \<Rightarrow> string" where
  "tag_callback baseUrl cfg m caps =
     ''<'' @ group_str caps 1
     @ add_sandbox (group_str caps 1)
         (rewrite_srcset baseUrl cfg
            (rewrite_href baseUrl cfg
               (rewrite_src baseUrl cfg (group_str caps 1) (group_str caps 2))))
     @ ''>''"

definition style_url_callback :: "string \<Rightarrow> rewrite_cfg \<Rightarrow> string \<Rightarrow> (nat \<times> string) list \<Rightarrow> string" where
  "style_url_callback baseUrl cfg um caps =
     ''url('' @ [CHR 0x22] @ resourcePath cfg
     @ encodeURIComponent (safeResolve (trim (strip_quotes (group_str caps 1))) baseUrl)
     @ [CHR 0x22] @ '')''"

definition style_attr_callback :: "string \<Rightarrow> rewrite_cfg \<Rightarrow> string \<Rightarrow> (nat \<times> string) list \<Rightarrow> string" where
  "style_attr_callback baseUrl cfg m caps =
     ''style='' @ [CHR 0x22]
     @ escapeAttr (replace_g True css_url_re (style_url_callback baseUrl cfg) (group_str caps 2))
     @ [CHR 0x22]"

definition style_block_callback :: "string \<Rightarrow> rewrite_cfg \<Rightarrow> string \<Rightarrow> (nat \<times> string) list \<Rightarrow> string" where
  "style_block_callback baseUrl cfg m caps = ''<style>'' @ rewriteCss (group_str caps 1) baseUrl cfg @ ''</style>''"

definition script_block_callback :: "string \<Rightarrow> rewrite_cfg \<Rightarrow> string \<Rightarrow> (nat \<times> string) list \<Rightarrow> string" where
  "script_block_callback baseUrl cfg m caps =
     ''<script'' @ group_str caps 1 @ ''>'' @ rewriteJs (group_str caps 2) baseUrl cfg @ ''</script>''"

definition strip_handlers :: "rewrite_cfg \<Rightarrow> string \<Rightarrow> string" where
  "strip_handlers cfg out =
     (if aggressiveSanitize cfg then replace_g True on_handler_re (\<lambda>m caps. []) out else out)"

text \<open>
  \<open>rewriteHtml(html, baseUrl, options)\<close>, the options already merged with the defaults:
  the replacements of the source from the innermost outwards.  In the \<open>try\<close> blocks of
  the callbacks only \<open>encodeURIComponent\<close> can throw, and only on a string with a lone
  surrogate; the strings of the model are well formed, so the callbacks are total and the
  \<open>catch\<close> branches of the source have no counterpart.  (Those of the callbacks for
  \<open>meta\<close>, the tags and \<open>script\<close> call \<open>logger.logWarn\<close>, with \<open>logger\<close> bound as in
  \<open>fetcher.js\<close> above.)
\<close>

definition rewriteHtml :: "string \<Rightarrow> string \<Rightarrow> rewrite_cfg \<Rightarrow> string" where
  "rewriteHtml html baseUrl cfg =
     (if html = [] \<or> baseUrl = [] then html
      else
        strip_handlers cfg
          (replace_g True script_block_re (script_block_callback baseUrl cfg)
             (replace_g True style_block_re (style_block_callback baseUrl cfg)
                (replace_g True style_attr_re (style_attr_callback baseUrl cfg)
                   (replace_g True tag_re (tag_callback baseUrl cfg)
                      (replace_g True meta_refresh_re (meta_refresh_callback baseUrl cfg)
                         (replace_g True base_tag_re (\<lambda>m caps. []) html)))))))"

section \<open>cssParser.js\<close>

text \<open>\<open>IMPORT_REGEX = /@import\s+(?:url\()?['"]?([^'")]+)['"]?\)?;/gi\<close>\<close>

definition IMPORT_REGEX :: regex where
  "IMPORT_REGEX =
     Seqs [Lit ''@import'', Plus Space, Opt (Lit ''url(''), Opt (OneOf quote_chars),
           Grp 1 (Plus (NoneOf (quote_chars @ '')''))), Opt (OneOf quote_chars), Opt (Chr CHR '')''),
           Chr CHR '';'']"

text \<open>
  \<open>inlineImports(css, baseUrl, fetcherFn)\<close>.  \<open>IMPORT_REGEX\<close> is one object of the module
  and carries the flag \<open>g\<close>, so its \<open>lastIndex\<close> is state shared by the loop and by the
  recursive calls: it is passed in and returned.  \<open>fetcherFn\<close> returns the text of a style
  sheet, or fails (\<open>None\<close>); the failure is caught and the import statement replaced by
  the empty string.  The loop need not end, so the function takes fuel: \<open>None\<close> says that
  the fuel ran out, and one unit is used by every call and every round of the loop.
\<close>

fun inlineImports :: "nat \<Rightarrow> (string \<Rightarrow> string option) \<Rightarrow> string \<Rightarrow> string \<Rightarrow> nat \<Rightarrow> (string \<times> nat) option"
  and inline_loop :: "nat \<Rightarrow> (string \<Rightarrow> string option) \<Rightarrow> string \<Rightarrow> string \<Rightarrow> nat \<Rightarrow> (string \<times> nat) option" where
  "inlineImports 0 fetcherFn css baseUrl li = None"
| "inlineImports (Suc n) fetcherFn css baseUrl li =
     (if css = [] then Some (css, li) else inline_loop n fetcherFn css baseUrl li)"
| "inline_loop 0 fetcherFn css baseUrl li = None"
| "inline_loop (Suc n) fetcherFn css baseUrl li =
     (case exec_g True IMPORT_REGEX li css of
        (None, li') \<Rightarrow> Some (css, li')
      | (Some m, li') \<Rightarrow>
          (case fetcherFn (safeResolve (group_str (groups m) 1) baseUrl) of
             None \<Rightarrow> inline_loop n fetcherFn (replace_str (matched m) [] css) baseUrl li'
           | Some importedCss \<Rightarrow>
               (case inlineImports n fetcherFn importedCss (safeResolve (group_str (groups m) 1) baseUrl) li' of
                  None \<Rightarrow> None
                | Some (cleaned, li'') \<Rightarrow>
                    inline_loop n fetcherFn (replace_str (matched m) cleaned css) baseUrl li'')))"

section \<open>Notions used in the proofs\<close>

subsection \<open>The \<open>url(...)\<close> pattern of \<open>rewriteCss\<close>\<close>





text \<open>
  The text has no \<open>@\<close> that is directly followed by \<open>i\<close>, \<open>I\<close> or a quote character.
  Such a text holds no \<open>@import\<close> rule, and none arises when quotes are removed from it.
\<close>

definition after_at :: string where
  "after_at = ''iI'' @ quote_chars"

fun no_at_import :: "string \<Rightarrow> bool" where
  "no_at_import [] = True"
| "no_at_import [c] = True"
| "no_at_import (c # d # s) = (\<not> (c = CHR ''@'' \<and> d \<in> set after_at) \<and> no_at_import (d # s))"

subsection \<open>A style sheet that imports one without imports\<close>

definition import_stmt :: string where
  \<open>import_stmt = ''@import "b.css";''\<close>

definition dollar_css :: string where
  \<open>dollar_css = ''x{content:"$&"}''\<close>

text \<open>A fetcher that serves \<open>dollar_css\<close> as \<open>https://site.test/b.css\<close> and fails for every other address.\<close>

definition dollar_fetcher :: "string \<Rightarrow> string option" where
  "dollar_fetcher u = (if u = ''https://site.test/b.css'' then Some dollar_css else None)"

definition import_prepared :: regex where
  "import_prepared = with_flags True IMPORT_REGEX"


chapter \<open>Properties\<close>

section \<open>The resource cache\<close>

lemma sum_sizes_simps [simp]:
  "sum_sizes [] = 0"
  "sum_sizes (p # m) = int (sizeB (snd p)) + sum_sizes m"
  "sum_sizes (m @ m') = sum_sizes m + sum_sizes m'"
  by (simp_all add: sum_sizes_def)

lemma sum_sizes_nonneg: "0 \<le> sum_sizes m"
  by (induction m) auto

lemma evict_loop_suffix:
  "evict_loop mi mb m b = (m', b') \<Longrightarrow> \<exists>pre. m = pre @ m' \<and> b' = b - sum_sizes pre"
proof (induction m arbitrary: b)
  case Nil
  then show ?case by simp
next
  case (Cons p m)
  show ?case
  proof (cases "length (p # m) > mi \<or> b > mb")
    case True
    with Cons.prems have "evict_loop mi mb m (b - int (sizeB (snd p))) = (m', b')" by simp
    from Cons.IH[OF this] obtain pre where "m = pre @ m'" "b' = b - int (sizeB (snd p)) - sum_sizes pre"
      by blast
    then have "p # m = (p # pre) @ m' \<and> b' = b - sum_sizes (p # pre)" by simp
    then show ?thesis by blast
  next
    case False
    with Cons.prems have "m' = p # m" "b' = b" by auto
    then have "p # m = [] @ m' \<and> b' = b - sum_sizes []" by simp
    then show ?thesis by blast
  qed
qed

lemma evict_loop_exit:
  "evict_loop mi mb m b = (m', b') \<Longrightarrow> m' = [] \<or> (length m' \<le> mi \<and> b' \<le> mb)"
  by (induction m arbitrary: b) (auto split: if_splits)

lemma evict_loop_inv:
  assumes "evict_loop mi mb m b = (m', b')" "distinct (map fst m)" "b = sum_sizes m"
  shows "distinct (map fst m') \<and> b' = sum_sizes m'"
proof -
  from evict_loop_suffix[OF assms(1)] obtain pre where "m = pre @ m'" "b' = b - sum_sizes pre" by blast
  with assms(2,3) show ?thesis by auto
qed

lemma evict_loop_limits:
  assumes "evict_loop mi mb m b = (m', b')" "b = sum_sizes m" "0 \<le> mb"
  shows "length m' \<le> mi \<and> b' \<le> mb"
proof -
  from evict_loop_suffix[OF assms(1)] obtain pre where "m = pre @ m'" "b' = b - sum_sizes pre" by blast
  with assms(2) have "b' = sum_sizes m'" by simp
  with evict_loop_exit[OF assms(1)] assms(3) show ?thesis by auto
qed

lemma evictIfNeeded_inv:
  "cache_inv s \<Longrightarrow> cache_inv (evictIfNeeded mi mb s)"
  unfolding cache_inv_def evictIfNeeded_def
  by (auto split: prod.splits dest: evict_loop_inv)

lemma evictIfNeeded_limits:
  "cache_inv s \<Longrightarrow> within_limits (evictIfNeeded DEFAULT_MAX_ITEMS DEFAULT_MAX_BYTES s)"
  unfolding cache_inv_def evictIfNeeded_def within_limits_def
  by (auto split: prod.splits dest: evict_loop_limits simp: DEFAULT_MAX_BYTES_def)

lemma map_of_delete [simp]: "map_of (map_delete k m) k = None"
  by (induction m) (auto simp: map_delete_def)

lemma distinct_map_delete: "distinct (map fst m) \<Longrightarrow> distinct (map fst (map_delete k m))"
  by (simp add: map_delete_def distinct_map_filter)

lemma sum_sizes_delete:
  "distinct (map fst m) \<Longrightarrow> map_of m k = Some e \<Longrightarrow> sum_sizes (map_delete k m) = sum_sizes m - int (sizeB e)"
proof (induction m)
  case Nil then show ?case by simp
next
  case (Cons p m)
  show ?case
  proof (cases "fst p = k")
    case True
    with Cons.prems have "snd p = e" by (cases p) auto
    moreover from True Cons.prems have "k \<notin> fst ` set m" by auto
    then have "map_delete k m = m" by (auto simp: map_delete_def filter_id_conv)
    ultimately show ?thesis using True by (simp add: map_delete_def)
  next
    case False
    with Cons show ?thesis by (cases p) (auto simp: map_delete_def)
  qed
qed

lemma map_set_fresh: "map_of m k = None \<Longrightarrow> map_set k e m = m @ [(k, e)]"
  by (simp add: map_set_def map_has_def)

lemma fst_set_delete: "fst ` set (map_delete k m) = fst ` set m - {k}"
  by (auto simp: map_delete_def)

lemma cache_inv_insert:
  assumes "cache_inv s" "map_of (cacheMap s) k = None"
  shows "cache_inv (s\<lparr> cacheMap := map_set k e (cacheMap s), currentBytes := currentBytes s + int (sizeB e) \<rparr>)"
  using assms by (auto simp: cache_inv_def map_set_fresh map_of_eq_None_iff)

lemma cache_inv_remove:
  assumes "cache_inv s" "map_of (cacheMap s) k = Some e"
  shows "cache_inv (s\<lparr> cacheMap := map_delete k (cacheMap s), currentBytes := currentBytes s - int (sizeB e) \<rparr>)"
  using assms by (auto simp: cache_inv_def distinct_map_delete sum_sizes_delete)

lemma touchKey_inv:
  assumes "cache_inv s"
  shows "cache_inv (s\<lparr> cacheMap := touchKey k (cacheMap s) \<rparr>)"
proof (cases "map_of (cacheMap s) k")
  case None
  with assms show ?thesis by (simp add: touchKey_def cache_inv_def)
next
  case (Some e)
  have "touchKey k (cacheMap s) = map_delete k (cacheMap s) @ [(k, e)]"
    using Some by (simp add: touchKey_def map_set_fresh)
  with assms Some show ?thesis
    by (auto simp: cache_inv_def distinct_map_delete sum_sizes_delete fst_set_delete)
qed

lemma cache_inv_disk [simp]:
  "cache_inv (removeFromDisk k s) = cache_inv s"
  "cache_inv (persistToDisk now k d s) = cache_inv s"
  by (simp_all add: cache_inv_def removeFromDisk_def persistToDisk_def)

lemma within_limits_disk [simp]:
  "within_limits (removeFromDisk k s) = within_limits s"
  "within_limits (persistToDisk now k d s) = within_limits s"
  by (simp_all add: within_limits_def removeFromDisk_def persistToDisk_def)

lemma get_resume_inv:
  assumes "cache_inv s" "map_of (cacheMap s) k = None"
  shows "cache_inv (snd (get_resume k d s))"
proof (cases "d = Null")
  case True
  with assms show ?thesis by (simp add: get_resume_def)
next
  case False
  let ?e = "\<lparr> val = d, sizeB = estimateSize d, expiresAt = None \<rparr>"
  have "cache_inv (s\<lparr> cacheMap := map_set k ?e (cacheMap s), currentBytes := currentBytes s + int (sizeB ?e) \<rparr>)"
    using assms by (rule cache_inv_insert)
  then show ?thesis using False by (simp add: get_resume_def Let_def evictIfNeeded_inv)
qed

lemma get_sync_inv: "cache_inv s \<Longrightarrow> cache_inv (snd (get_sync now k s))"
  by (auto simp: get_sync_def cache_inv_remove touchKey_inv split: option.splits)

lemma get_sync_await:
  "get_sync now k s = (AwaitDisk, s') \<Longrightarrow> s' = s \<and> map_of (cacheMap s) k = None"
  by (auto simp: get_sync_def split: option.splits if_splits)

lemma get_inv: "cache_inv s \<Longrightarrow> cache_inv (snd (get now k s))"
proof -
  assume inv: "cache_inv s"
  obtain r s' where gs: "get_sync now k s = (r, s')" by (cases "get_sync now k s")
  show ?thesis
  proof (cases r)
    case (Done v)
    with gs get_sync_inv[OF inv, of now k] show ?thesis by (simp add: get_def)
  next
    case AwaitDisk
    with gs get_sync_await have "s' = s" "map_of (cacheMap s) k = None" by auto
    with gs AwaitDisk get_resume_inv[OF inv] show ?thesis by (simp add: get_def)
  qed
qed

lemma set_entry_inv: "cache_inv s \<Longrightarrow> cache_inv (snd (set_entry now k v ttl s))"
proof (cases "k = []")
  case True
  assume "cache_inv s" with True show ?thesis by (simp add: set_entry_def)
next
  case False
  assume inv: "cache_inv s"
  define s1 where "s1 = (case map_of (cacheMap s) k of
                    Some prev \<Rightarrow> s\<lparr> cacheMap := map_delete k (cacheMap s),
                                    currentBytes := currentBytes s - int (sizeB prev) \<rparr>
                  | None \<Rightarrow> s)"
  have i1: "cache_inv s1" using inv by (auto simp: s1_def cache_inv_remove split: option.splits)
  have n1: "map_of (cacheMap s1) k = None" by (auto simp: s1_def split: option.splits)
  let ?e = "\<lparr> val = v, sizeB = estimateSize v, expiresAt = (if ttl \<noteq> 0 then Some (now + ttl) else None) \<rparr>"
  have "cache_inv (s1\<lparr> cacheMap := map_set k ?e (cacheMap s1), currentBytes := currentBytes s1 + int (sizeB ?e) \<rparr>)"
    using i1 n1 by (rule cache_inv_insert)
  then show ?thesis using False
    by (simp add: set_entry_def Let_def evictIfNeeded_inv s1_def[symmetric])
qed

lemma set_entry_limits: "cache_inv s \<Longrightarrow> k \<noteq> [] \<Longrightarrow> within_limits (snd (set_entry now k v ttl s))"
proof -
  assume inv: "cache_inv s" and False: "k \<noteq> []"
  define s1 where "s1 = (case map_of (cacheMap s) k of
                    Some prev \<Rightarrow> s\<lparr> cacheMap := map_delete k (cacheMap s),
                                    currentBytes := currentBytes s - int (sizeB prev) \<rparr>
                  | None \<Rightarrow> s)"
  have i1: "cache_inv s1" using inv by (auto simp: s1_def cache_inv_remove split: option.splits)
  have n1: "map_of (cacheMap s1) k = None" by (auto simp: s1_def split: option.splits)
  let ?e = "\<lparr> val = v, sizeB = estimateSize v, expiresAt = (if ttl \<noteq> 0 then Some (now + ttl) else None) \<rparr>"
  have "cache_inv (s1\<lparr> cacheMap := map_set k ?e (cacheMap s1), currentBytes := currentBytes s1 + int (sizeB ?e) \<rparr>)"
    using i1 n1 by (rule cache_inv_insert)
  then show ?thesis using False
    by (simp add: set_entry_def Let_def evictIfNeeded_limits s1_def[symmetric])
qed

lemma del_inv: "cache_inv s \<Longrightarrow> cache_inv (snd (del k s))"
  by (auto simp: del_def Let_def cache_inv_remove split: option.splits)

lemma clear_inv: "cache_inv (clear s)"
  by (simp add: clear_def cache_inv_def)

lemma sweep_loop_eq:
  "sweep_loop t m b =
     (filter (\<lambda>p. \<not> is_expired t (snd p)) m, b - sum_sizes (filter (\<lambda>p. is_expired t (snd p)) m))"
  by (induction m arbitrary: b) auto

lemma sum_sizes_partition:
  "sum_sizes m = sum_sizes (filter P m) + sum_sizes (filter (\<lambda>p. \<not> P p) m)"
  by (induction m) auto

lemma sweep_inv: "cache_inv s \<Longrightarrow> cache_inv (sweep t s)"
proof -
  assume inv: "cache_inv s"
  let ?P = "\<lambda>p. is_expired t (snd p)"
  let ?s1 = "s\<lparr> cacheMap := filter (\<lambda>p. \<not> ?P p) (cacheMap s),
               currentBytes := currentBytes s - sum_sizes (filter ?P (cacheMap s)) \<rparr>"
  have "cache_inv ?s1"
    using inv sum_sizes_partition[of "cacheMap s" ?P]
    by (auto simp: cache_inv_def distinct_map_filter)
  then show ?thesis by (simp add: sweep_def sweep_loop_eq evictIfNeeded_inv)
qed

lemma sweep_limits: "cache_inv s \<Longrightarrow> within_limits (sweep t s)"
proof -
  assume inv: "cache_inv s"
  let ?P = "\<lambda>p. is_expired t (snd p)"
  let ?s1 = "s\<lparr> cacheMap := filter (\<lambda>p. \<not> ?P p) (cacheMap s),
               currentBytes := currentBytes s - sum_sizes (filter ?P (cacheMap s)) \<rparr>"
  have "cache_inv ?s1"
    using inv sum_sizes_partition[of "cacheMap s" ?P]
    by (auto simp: cache_inv_def distinct_map_filter)
  then show ?thesis by (simp add: sweep_def sweep_loop_eq evictIfNeeded_limits)
qed

lemma evict_loop_keeps_last:
  assumes "b = sum_sizes (m @ [(k, e)])" "int (sizeB e) \<le> mb" "1 \<le> mi"
  shows "\<exists>m'. fst (evict_loop mi mb (m @ [(k, e)]) b) = m' @ [(k, e)]"
  using assms
proof (induction m arbitrary: b)
  case Nil
  then show ?case by auto
next
  case (Cons p m)
  show ?case
  proof (cases "length ((p # m) @ [(k, e)]) > mi \<or> b > mb")
    case True
    then have "evict_loop mi mb ((p # m) @ [(k, e)]) b = evict_loop mi mb (m @ [(k, e)]) (b - int (sizeB (snd p)))"
      by simp
    moreover have "b - int (sizeB (snd p)) = sum_sizes (m @ [(k, e)])" using Cons.prems by simp
    ultimately show ?thesis using Cons.IH[OF _ Cons.prems(2,3)] by simp
  next
    case False
    then have "fst (evict_loop mi mb ((p # m) @ [(k, e)]) b) = (p # m) @ [(k, e)]" by simp
    then show ?thesis by blast
  qed
qed

lemma map_of_append_last: "map_of m k = None \<Longrightarrow> map_of (m @ [(k, e)]) k = Some e"
  by (induction m) (auto split: if_splits)

lemma map_of_snoc_distinct:
  "k \<notin> fst ` set m \<Longrightarrow> map_of (m @ [(k, e)]) k = Some e"
  by (induction m) auto

lemma set_entry_lookup:
  assumes inv: "cache_inv s" and k: "k \<noteq> []" and sz: "int (estimateSize v) \<le> DEFAULT_MAX_BYTES"
  shows "map_of (cacheMap (snd (set_entry now k v ttl s))) k
           = Some \<lparr> val = v, sizeB = estimateSize v, expiresAt = (if ttl \<noteq> 0 then Some (now + ttl) else None) \<rparr>
         \<and> cache_inv (snd (set_entry now k v ttl s))"
proof -
  define s1 where "s1 = (case map_of (cacheMap s) k of
                    Some prev \<Rightarrow> s\<lparr> cacheMap := map_delete k (cacheMap s),
                                    currentBytes := currentBytes s - int (sizeB prev) \<rparr>
                  | None \<Rightarrow> s)"
  have i1: "cache_inv s1" using inv by (auto simp: s1_def cache_inv_remove split: option.splits)
  have n1: "map_of (cacheMap s1) k = None" by (auto simp: s1_def split: option.splits)
  define e where "e = \<lparr> val = v, sizeB = estimateSize v, expiresAt = (if ttl \<noteq> 0 then Some (now + ttl) else None) \<rparr>"
  have se: "sizeB e = estimateSize v" by (simp add: e_def)
  define s2 where "s2 = s1\<lparr> cacheMap := map_set k e (cacheMap s1), currentBytes := currentBytes s1 + int (estimateSize v) \<rparr>"
  have i2: "cache_inv s2" unfolding s2_def using cache_inv_insert[OF i1 n1, of e] by (simp add: se)
  have m2: "cacheMap s2 = cacheMap s1 @ [(k, e)]" using n1 by (simp add: s2_def map_set_fresh)
  have b2: "currentBytes s2 = sum_sizes (cacheMap s1 @ [(k, e)])" using i2 m2 by (simp add: cache_inv_def)
  obtain m' where m': "fst (evict_loop DEFAULT_MAX_ITEMS DEFAULT_MAX_BYTES (cacheMap s1 @ [(k, e)]) (currentBytes s2)) = m' @ [(k, e)]"
    using evict_loop_keeps_last[OF b2, of DEFAULT_MAX_BYTES DEFAULT_MAX_ITEMS] sz se
    by (auto simp: DEFAULT_MAX_ITEMS_def)
  define s3 where "s3 = evictIfNeeded DEFAULT_MAX_ITEMS DEFAULT_MAX_BYTES s2"
  have i3: "cache_inv s3" unfolding s3_def using i2 by (rule evictIfNeeded_inv)
  have c3: "cacheMap s3 = m' @ [(k, e)]" using m' m2 by (auto simp: s3_def evictIfNeeded_def split: prod.splits)
  have "k \<notin> fst ` set m'" using i3 c3 by (auto simp: cache_inv_def)
  then have l3: "map_of (cacheMap s3) k = Some e" unfolding c3 by (rule map_of_snoc_distinct)
  have fin: "snd (set_entry now k v ttl s) =
      (if estimateSize v \<le> MAX_PERSIST_BYTES
       then persistToDisk now k (Obj [(''value'', v), (''meta'', Obj [(''ttl'', Num ttl), (''storedAt'', Num now)])]) s3
       else s3)"
    using k by (simp add: set_entry_def Let_def s1_def[symmetric] e_def[symmetric] se s2_def[symmetric] s3_def[symmetric])
  show ?thesis using l3 i3 by (simp add: fin persistToDisk_def cache_inv_def e_def)
qed

lemma get_hit:
  assumes "map_of (cacheMap s) k = Some e" "k \<noteq> []" "\<not> is_expired now e"
  shows "get now k s = (val e, s\<lparr> cacheMap := touchKey k (cacheMap s) \<rparr>)"
  using assms by (simp add: get_def get_sync_def)

lemma get_expired:
  assumes "map_of (cacheMap s) k = Some e" "k \<noteq> []" "is_expired now e"
  shows "get now k s = (Null, removeFromDisk k (s\<lparr> cacheMap := map_delete k (cacheMap s),
                       currentBytes := currentBytes s - int (sizeB e) \<rparr>))"
  using assms by (simp add: get_def get_sync_def)

text \<open>
  A \<open>get\<close> that follows the \<open>set\<close> with nothing in between, from a state whose byte
  counter agrees with the map, for a non-empty key and a value within the byte ceiling:
  before \<open>t0 + ttl\<close> it returns the value, after \<open>t0 + ttl\<close> it returns \<open>null\<close> and the
  entry is gone from memory and from disk.
\<close>

lemma set_then_get:
  assumes "cache_inv s" and "k \<noteq> []" and "int (estimateSize v) \<le> DEFAULT_MAX_BYTES"
    and "0 < ttl" and "0 \<le> t0"
  shows "(t1 < t0 + ttl \<longrightarrow> fst (get t1 k (snd (set_entry t0 k v ttl s))) = v)
       \<and> (t0 + ttl < t2 \<longrightarrow>
            (case get t2 k (snd (set_entry t0 k v ttl s)) of
               (r, s') \<Rightarrow> r = Null \<and> map_of (cacheMap s') k = None \<and> disk s' k = None))"
proof -
  let ?s1 = "snd (set_entry t0 k v ttl s)"
  let ?e = "\<lparr> val = v, sizeB = estimateSize v, expiresAt = Some (t0 + ttl) \<rparr>"
  have l: "map_of (cacheMap ?s1) k = Some ?e"
    using set_entry_lookup[OF assms(1,2,3), of t0 ttl] assms(4) by simp
  have a: "fst (get t1 k ?s1) = v" if "t1 < t0 + ttl"
    using get_hit[OF l assms(2), of t1] that by (simp add: is_expired_def)
  have b: "(case get t2 k ?s1 of (r, s') \<Rightarrow> r = Null \<and> map_of (cacheMap s') k = None \<and> disk s' k = None)"
    if "t0 + ttl < t2"
    using get_expired[OF l assms(2), of t2] that assms(4,5)
    by (simp add: is_expired_def removeFromDisk_def)
  from a b show ?thesis by blast
qed

lemma cache_inv_empty: "cache_inv empty_cache"
  by (simp add: cache_inv_def empty_cache_def)

lemma est_wrapper: "estimateSize wrapper_v = 46"
  unfolding wrapper_v_def by code_simp

lemma evict_small:
  "length m \<le> DEFAULT_MAX_ITEMS \<Longrightarrow> b \<le> DEFAULT_MAX_BYTES \<Longrightarrow>
   evictIfNeeded DEFAULT_MAX_ITEMS DEFAULT_MAX_BYTES (s\<lparr> cacheMap := m, currentBytes := b \<rparr>) = s\<lparr> cacheMap := m, currentBytes := b \<rparr>"
  by (cases m) (auto simp: evictIfNeeded_def)

lemma set1: "snd (set_entry 0 ''k'' (Str ''v'') 1000 empty_cache)
   = \<lparr> cacheMap = [(''k'', \<lparr> val = Str ''v'', sizeB = 1, expiresAt = Some 1000 \<rparr>)], currentBytes = 1,
       disk = [''k'' \<mapsto> Obj [(''ts'', Num 0), (''key'', Str ''k''), (''data'', wrapper_v)]] \<rparr>"
  by (simp add: set_entry_def empty_cache_def map_set_def map_has_def evictIfNeeded_def persistToDisk_def
        estimateSize_def MAX_PERSIST_BYTES_def DEFAULT_MAX_ITEMS_def DEFAULT_MAX_BYTES_def wrapper_v_def)

text \<open>
  Claim C2 fails on the code.  \<open>set("k", "v", 1000)\<close> at time 0 stores the entry and
  writes its file.  The background cleanup that runs at 60000 finds the entry expired and
  removes it from memory, and leaves the file.  \<open>get("k")\<close> at 70000, long after the ttl
  has elapsed, finds nothing in memory, reads the file and returns the persisted record; it
  puts that record back into memory without an expiry, and the file stays.
\<close>

theorem get_after_sweep_returns_expired:
  "get 70000 ''k'' (sweep 60000 (snd (set_entry 0 ''k'' (Str ''v'') 1000 empty_cache)))
     = (wrapper_v,
        \<lparr> cacheMap = [(''k'', \<lparr> val = wrapper_v, sizeB = 46, expiresAt = None \<rparr>)], currentBytes = 46,
          disk = [''k'' \<mapsto> Obj [(''ts'', Num 0), (''key'', Str ''k''), (''data'', wrapper_v)]] \<rparr>)"
  unfolding set1
  apply (simp add: sweep_def is_expired_def get_def get_sync_def get_resume_def loadFromDisk_def est_wrapper
        map_set_def map_has_def evictIfNeeded_def DEFAULT_MAX_ITEMS_def DEFAULT_MAX_BYTES_def)
  apply (simp add: wrapper_v_def)
  done

text \<open>
  Claim C4 fails on the code.  \<open>set("k", "v", 1000)\<close> persists the record
  \<open>{ value, meta }\<close>; once the entry has left memory, \<open>get("k")\<close> returns that whole
  record, not the value \<open>"v"\<close> that \<open>set\<close> was called with.
\<close>

theorem get_from_disk_returns_record: "get 3000 ''k'' (restart (snd (set_entry 0 ''k'' (Str ''v'') 1000 empty_cache)))
  = (wrapper_v, \<lparr> cacheMap = [(''k'', \<lparr> val = wrapper_v, sizeB = 46, expiresAt = None \<rparr>)], currentBytes = 46,
       disk = [''k'' \<mapsto> Obj [(''ts'', Num 0), (''key'', Str ''k''), (''data'', wrapper_v)]] \<rparr>)"
  unfolding set1
  apply (simp add: restart_def get_def get_sync_def get_resume_def loadFromDisk_def est_wrapper
        map_set_def map_has_def evictIfNeeded_def DEFAULT_MAX_ITEMS_def DEFAULT_MAX_BYTES_def)
  apply (simp add: wrapper_v_def)
  done

text \<open>
  Claim C10 fails on the code.  Two overlapping calls \<open>get("k")\<close> for a key that is on disk and
  not in memory both pass the test \<open>cacheMap.has(key)\<close> before either continuation runs; the
  second continuation overwrites the entry of the first and adds its size once more.  After
  both calls have completed the map holds one entry of 46 bytes and \<open>currentBytes\<close> is 92.
\<close>

theorem overlapped_gets_count_twice: "overlapped_gets 3000 ''k'' (restart (snd (set_entry 0 ''k'' (Str ''v'') 1000 empty_cache)))
  = Some ((wrapper_v, wrapper_v), \<lparr> cacheMap = [(''k'', \<lparr> val = wrapper_v, sizeB = 46, expiresAt = None \<rparr>)], currentBytes = 92,
       disk = [''k'' \<mapsto> Obj [(''ts'', Num 0), (''key'', Str ''k''), (''data'', wrapper_v)]] \<rparr>)"
  unfolding set1
  apply (simp add: restart_def overlapped_gets_def get_sync_def get_resume_def loadFromDisk_def est_wrapper
        map_set_def map_has_def evictIfNeeded_def DEFAULT_MAX_ITEMS_def DEFAULT_MAX_BYTES_def)
  apply (simp add: wrapper_v_def)
  done



lemma set_entry_full:
  assumes inv: "cache_inv s" and full: "length (cacheMap s) = DEFAULT_MAX_ITEMS"
    and new: "map_of (cacheMap s) k' = None" "k' \<noteq> []"
    and bytes: "currentBytes s + int (estimateSize v) \<le> DEFAULT_MAX_BYTES"
  shows "cacheMap (snd (set_entry t k' v ttl s)) =
           tl (cacheMap s) @ [(k', \<lparr> val = v, sizeB = estimateSize v,
                                     expiresAt = (if ttl \<noteq> 0 then Some (t + ttl) else None) \<rparr>)]"
proof -
  define e where "e = \<lparr> val = v, sizeB = estimateSize v, expiresAt = (if ttl \<noteq> 0 then Some (t + ttl) else None) \<rparr>"
  obtain p m where pm: "cacheMap s = p # m"
    using full by (cases "cacheMap s") (auto simp: DEFAULT_MAX_ITEMS_def)
  have len: "length m + 1 = DEFAULT_MAX_ITEMS" using full pm by simp
  have nn: "0 \<le> sum_sizes m" by (rule sum_sizes_nonneg)
  have cb: "currentBytes s = int (sizeB (snd p)) + sum_sizes m" using inv pm by (simp add: cache_inv_def)
  have ev: "evict_loop DEFAULT_MAX_ITEMS DEFAULT_MAX_BYTES ((p # m) @ [(k', e)]) (currentBytes s + int (estimateSize v))
              = (m @ [(k', e)], currentBytes s + int (estimateSize v) - int (sizeB (snd p)))"
  proof (cases m)
    case Nil
    then show ?thesis using len bytes by (auto simp: DEFAULT_MAX_ITEMS_def)
  next
    case (Cons q m')
    then show ?thesis using len bytes by auto
  qed
  have "snd (set_entry t k' v ttl s) =
      (let s3 = evictIfNeeded DEFAULT_MAX_ITEMS DEFAULT_MAX_BYTES
                  (s\<lparr> cacheMap := cacheMap s @ [(k', e)], currentBytes := currentBytes s + int (estimateSize v) \<rparr>)
       in if estimateSize v \<le> MAX_PERSIST_BYTES
          then persistToDisk t k' (Obj [(''value'', v), (''meta'', Obj [(''ttl'', Num ttl), (''storedAt'', Num t)])]) s3
          else s3)"
    using new by (simp add: set_entry_def Let_def map_set_fresh e_def)
  then show ?thesis
    using ev pm by (simp add: Let_def evictIfNeeded_def persistToDisk_def e_def)
qed

lemma length_map_delete:
  "distinct (map fst m) \<Longrightarrow> map_of m k = Some e \<Longrightarrow> length (map_delete k m) + 1 = length m"
proof (induction m)
  case Nil then show ?case by simp
next
  case (Cons p m)
  show ?case
  proof (cases "fst p = k")
    case True
    with Cons.prems have "k \<notin> fst ` set m" by auto
    then have "map_delete k m = m" by (auto simp: map_delete_def filter_id_conv)
    with True show ?thesis by (simp add: map_delete_def)
  next
    case False
    with Cons show ?thesis by (cases p) (auto simp: map_delete_def)
  qed
qed

lemma map_of_mid: "k \<notin> fst ` set a \<Longrightarrow> map_of (a @ (k, e) # b) k = Some e"
  by (induction a) auto

text \<open>
  Claim C5.  The cache holds \<open>DEFAULT_MAX_ITEMS\<close> entries and the byte ceiling is not in
  play.  Inserting a new key evicts exactly the entry at the head of the map, the least
  recently used one.  A successful \<open>get(k)\<close> moves \<open>k\<close> to the end of the map, and the
  insertion that follows evicts the head of that map and leaves \<open>k\<close> in the cache.
\<close>

theorem lru_eviction:
  assumes inv: "cache_inv s" and full: "length (cacheMap s) = DEFAULT_MAX_ITEMS"
    and hit: "map_of (cacheMap s) k = Some e" "\<not> is_expired t e" "k \<noteq> []"
    and new: "map_of (cacheMap s) k' = None" "k' \<noteq> []"
    and bytes: "currentBytes s + int (estimateSize v) \<le> DEFAULT_MAX_BYTES"
  shows "cacheMap (snd (set_entry t' k' v ttl s)) =
           tl (cacheMap s) @ [(k', \<lparr> val = v, sizeB = estimateSize v,
                                     expiresAt = (if ttl \<noteq> 0 then Some (t' + ttl) else None) \<rparr>)]
       \<and> (case get t k s of
            (r, s1) \<Rightarrow>
              r = val e
              \<and> cacheMap s1 = map_delete k (cacheMap s) @ [(k, e)]
              \<and> cacheMap (snd (set_entry t' k' v ttl s1)) =
                  tl (cacheMap s1) @ [(k', \<lparr> val = v, sizeB = estimateSize v,
                                     expiresAt = (if ttl \<noteq> 0 then Some (t' + ttl) else None) \<rparr>)]
              \<and> map_of (cacheMap (snd (set_entry t' k' v ttl s1))) k = Some e)"
proof -
  define s1 where "s1 = s\<lparr> cacheMap := touchKey k (cacheMap s) \<rparr>"
  define ne where "ne = \<lparr> val = v, sizeB = estimateSize v, expiresAt = (if ttl \<noteq> 0 then Some (t' + ttl) else None) \<rparr>"
  define md where "md = map_delete k (cacheMap s)"
  have g: "get t k s = (val e, s1)" using get_hit[OF hit(1,3,2)] by (simp add: s1_def)
  have tk: "touchKey k (cacheMap s) = md @ [(k, e)]"
    using hit(1) by (simp add: touchKey_def map_set_fresh md_def)
  have c1: "cacheMap s1 = md @ [(k, e)]" by (simp add: s1_def tk)
  have i1: "cache_inv s1" unfolding s1_def using inv by (rule touchKey_inv)
  have dist: "distinct (map fst (cacheMap s))" using inv by (simp add: cache_inv_def)
  have lmd: "length md + 1 = length (cacheMap s)"
    unfolding md_def using dist hit(1) by (rule length_map_delete)
  have full1: "length (cacheMap s1) = DEFAULT_MAX_ITEMS" using lmd full c1 by simp
  have kk: "k' \<noteq> k" using hit(1) new(1) by auto
  have "k' \<notin> fst ` set (cacheMap s)" using new(1) by (simp add: map_of_eq_None_iff)
  then have "k' \<notin> fst ` set (cacheMap s1)" using kk by (auto simp: c1 md_def map_delete_def)
  then have new1: "map_of (cacheMap s1) k' = None" by (simp add: map_of_eq_None_iff)
  have bytes1: "currentBytes s1 + int (estimateSize v) \<le> DEFAULT_MAX_BYTES" using bytes by (simp add: s1_def)
  have A: "cacheMap (snd (set_entry t' k' v ttl s)) = tl (cacheMap s) @ [(k', ne)]"
    unfolding ne_def using inv full new bytes by (rule set_entry_full)
  have B: "cacheMap (snd (set_entry t' k' v ttl s1)) = tl (cacheMap s1) @ [(k', ne)]"
    unfolding ne_def using i1 full1 new1 new(2) bytes1 by (rule set_entry_full)
  have mdne: "md \<noteq> []" using lmd full by (auto simp: DEFAULT_MAX_ITEMS_def)
  have knot: "k \<notin> fst ` set md" by (auto simp: md_def map_delete_def)
  have "k \<notin> fst ` set (tl md)" using knot mdne by (cases md) auto
  then have "map_of (tl md @ (k, e) # [(k', ne)]) k = Some e" by (rule map_of_mid)
  then have C: "map_of (cacheMap (snd (set_entry t' k' v ttl s1))) k = Some e"
    using B c1 mdne by simp
  show ?thesis using g A B C c1 by (simp add: ne_def md_def)
qed

lemma sum_sizes_const: "sum_sizes (map (\<lambda>n. (f n, e)) ns) = int (sizeB e) * int (length ns)"
  by (induction ns) (auto simp: algebra_simps)

lemma map_of_const: "i \<in> set ns \<Longrightarrow> map_of (map (\<lambda>n. (f n, e)) ns) (f i) = Some e"
  by (induction ns) auto

lemma full_cache_inv: "cache_inv full_cache"
proof -
  have "inj key_n" by (auto simp: inj_on_def key_n_def)
  then have "distinct (map key_n [0..<500])" by (simp add: distinct_map inj_on_def)
  then show ?thesis by (simp add: cache_inv_def full_cache_def sum_sizes_const comp_def del: upt_Suc)
qed

lemma full_cache_len: "length (cacheMap full_cache) = DEFAULT_MAX_ITEMS"
  by (simp add: full_cache_def DEFAULT_MAX_ITEMS_def)

lemma full_cache_hit: "map_of (cacheMap full_cache) ''a'' = Some \<lparr> val = Str ''x'', sizeB = 1, expiresAt = None \<rparr>"
proof -
  have "(0::nat) \<in> set [0..<500]" by simp
  then have "map_of (map (\<lambda>n. (key_n n, \<lparr> val = Str ''x'', sizeB = 1, expiresAt = None \<rparr>)) [0..<500]) (key_n 0)
      = Some \<lparr> val = Str ''x'', sizeB = 1, expiresAt = None \<rparr>"
    by (rule map_of_const)
  then show ?thesis by (simp add: full_cache_def key_n_def)
qed

lemma full_cache_new: "map_of (cacheMap full_cache) ''b'' = None"
  by (auto simp: full_cache_def map_of_eq_None_iff key_n_def)

theorem lru_eviction_witness:
  "cache_inv full_cache \<and> length (cacheMap full_cache) = DEFAULT_MAX_ITEMS
   \<and> map_of (cacheMap full_cache) ''a'' = Some \<lparr> val = Str ''x'', sizeB = 1, expiresAt = None \<rparr>
   \<and> \<not> is_expired 10 \<lparr> val = Str ''x'', sizeB = 1, expiresAt = None \<rparr>
   \<and> map_of (cacheMap full_cache) ''b'' = None
   \<and> currentBytes full_cache + int (estimateSize (Str ''y'')) \<le> DEFAULT_MAX_BYTES
   \<and> cacheMap (snd (set_entry 20 ''b'' (Str ''y'') 1000 full_cache)) =
           tl (cacheMap full_cache) @ [(''b'', \<lparr> val = Str ''y'', sizeB = 1, expiresAt = Some 1020 \<rparr>)]
   \<and> (case get 10 ''a'' full_cache of
            (r, s1) \<Rightarrow>
              r = Str ''x''
              \<and> cacheMap s1 = map_delete ''a'' (cacheMap full_cache) @ [(''a'', \<lparr> val = Str ''x'', sizeB = 1, expiresAt = None \<rparr>)]
              \<and> cacheMap (snd (set_entry 20 ''b'' (Str ''y'') 1000 s1)) =
                  tl (cacheMap s1) @ [(''b'', \<lparr> val = Str ''y'', sizeB = 1, expiresAt = Some 1020 \<rparr>)]
              \<and> map_of (cacheMap (snd (set_entry 20 ''b'' (Str ''y'') 1000 s1))) ''a''
                   = Some \<lparr> val = Str ''x'', sizeB = 1, expiresAt = None \<rparr>)"
proof -
  have ne: "\<not> is_expired 10 \<lparr> val = Str ''x'', sizeB = 1, expiresAt = None \<rparr>" by (simp add: is_expired_def)
  have k: "''a'' \<noteq> []" "''b'' \<noteq> []" by simp_all
  have b: "currentBytes full_cache + int (estimateSize (Str ''y'')) \<le> DEFAULT_MAX_BYTES"
    by (simp add: full_cache_def estimateSize_def DEFAULT_MAX_BYTES_def)
  have es: "estimateSize (Str ''y'') = 1" by (simp add: estimateSize_def)
  show ?thesis
    using lru_eviction[OF full_cache_inv full_cache_len full_cache_hit ne k(1) full_cache_new k(2) b, of 20 1000]
      full_cache_inv full_cache_len full_cache_hit ne full_cache_new b
    by (simp add: es)
qed

section \<open>Validation of the target URL\<close>

lemma validateUrl_blacklisted:
  assumes "URL_new s = Some u" and "toLowerCase (hostname u) \<in> set BLACKLIST_HOSTS"
  shows "validateUrl s = \<lparr> valid = False, reason = Some ''Host is blacklisted'' \<rparr>"
proof -
  have "protocol u = ''http:'' \<or> protocol u = ''https:''"
    using assms(1)
    by (auto simp: URL_new_def URL_parse_def URL_parse_clean_def parse_authority_def parse_authority_parts_def make_url_def parse_tail_def Let_def
             split: option.splits if_splits prod.splits)
  then show ?thesis using assms by (auto simp: validateUrl_def isValidUrl_def isHostAllowed_def)
qed

lemma isBlockedHostname_prefix:
  assumes "h \<noteq> []" and "b \<in> set blockedHostnames" and "startsWith (toLowerCase h) b"
  shows "isBlockedHostname h"
proof -
  have "toLowerCase b = b" using assms(2) by (auto simp: blockedHostnames_def) code_simp+
  moreover have "b \<noteq> []" using assms(2) by (auto simp: blockedHostnames_def)
  ultimately show ?thesis using assms by (auto simp: isBlockedHostname_def list_ex_iff)
qed

lemma validateUrl_loopback_examples:
  "validateUrl ''http://127.0.0.1/x'' = \<lparr> valid = False, reason = Some ''Host is blacklisted'' \<rparr>"
  "validateUrl ''http://localhost/x'' = \<lparr> valid = False, reason = Some ''Host is blacklisted'' \<rparr>"
  "validateUrl ''http://example.com'' = \<lparr> valid = True, reason = None \<rparr>"
  by code_simp+

text \<open>
  Claim C1 fails on the code.  The platform reports the host of \<open>http://[::1]/x\<close> as
  \<open>[::1]\<close>, in brackets, and none of the three checks matches it against its entry \<open>::1\<close>:
  \<open>validateUrl\<close> answers valid, \<open>sanitizeURL\<close> returns the URL, and \<open>isBlockedHostname\<close>
  answers false for that host.
\<close>

theorem ipv6_loopback_not_blocked:
  "validateUrl ''http://[::1]/x'' = \<lparr> valid = True, reason = None \<rparr>
   \<and> sanitizeURL ''http://[::1]/x'' = Some ''http://[::1]/x''
   \<and> map_option (\<lambda>u. isBlockedHostname (hostname u)) (URL_new ''http://[::1]/x'') = Some False"
  by code_simp

text \<open>
  Claim C7 fails on the code.  Both parameters of \<open>?a=script&b=script\<close> match the pattern.
  The callback deletes \<open>a\<close> while \<open>forEach\<close> stands at index 0; \<open>b\<close> moves to index 0,
  \<open>forEach\<close> goes on at index 1 and never visits it.  The URL returned still has \<open>b=script\<close>.
\<close>

theorem sanitizeURL_keeps_second_parameter:
  "sanitizeURL ''https://example.com/?a=script&b=script'' = Some ''https://example.com/?b=script''"
  by code_simp

section \<open>The retry loops of the fetcher\<close>

text \<open>\<open>logger.js\<close> exports no \<open>logger\<close>, so every call \<open>logger.m(...)\<close> of \<open>fetcher.js\<close> throws.\<close>

lemma logger_call_throws: "logger_call m = Some (TypeError m)"
  by (simp add: logger_call_def logger_bound_def logger_exports_def)

lemma fetchText_loop_attempts:
  "fst (snd (fetchText_loop upstream retries attempt lastErr sleeps)) \<le> max attempt (nat (retries + 1))"
proof (induction upstream retries attempt lastErr sleeps rule: fetchText_loop.induct)
  case (1 upstream retries attempt lastErr sleeps)
  show ?case
  proof (cases "int attempt \<le> retries")
    case False
    then show ?thesis by (subst fetchText_loop.simps) simp
  next
    case True
    then have le: "max (Suc attempt) (nat (retries + 1)) = nat (retries + 1)"
      and le2: "max attempt (nat (retries + 1)) = nat (retries + 1)" "Suc attempt \<le> nat (retries + 1)" by auto
    show ?thesis
    proof (cases "fetchText_try retries (Suc attempt) (upstream (Suc attempt))")
      case (Returned body)
      show ?thesis unfolding le2 using True Returned le2
        by (subst fetchText_loop.simps) simp
    next
      case (Continue e)
      from "1.IH"(1)[OF True Continue] le
      have "fst (snd (fetchText_loop upstream retries (Suc attempt) (Some e)
               (sleeps @ [BACKOFF_BASE * Suc attempt]))) \<le> nat (retries + 1)"
        by simp
      then show ?thesis unfolding le2 using True Continue
        by (subst fetchText_loop.simps) simp
    next
      case (Caught e)
      show ?thesis unfolding le2 using True Caught le2
        by (subst fetchText_loop.simps) (simp add: logger_call_throws)
    qed
  qed
qed

text \<open>At most \<open>retries + 1\<close> attempts are made.\<close>

lemma fetchText_attempts:
  "fst (snd (fetchText parse upstream (Some (int n)) u)) \<le> n + 1"
proof -
  have "nat (int n + 1) = n + 1" by simp
  with fetchText_loop_attempts[of upstream "int n" 0 None "[]"]
  have "fst (snd (fetchText_loop upstream (int n) 0 None [])) \<le> n + 1" by simp
  then show ?thesis by (simp add: fetchText_def)
qed

text \<open>
  A response with a status from 400 to 499 is requested once: the \<open>throw\<close> for it is
  caught by the loop's own \<open>catch\<close>, where \<open>logger.logWarn\<close> throws and ends \<open>fetchText\<close>.
  The first exception of \<open>fetch\<close> ends it in the same way.
\<close>

lemma fetchText_client_error_once:
  assumes "upstream 1 = Response status statusText body" "400 \<le> status" "status < 500" "0 \<le> retries"
  shows "fetchText_loop upstream retries 0 None [] = (Inl (Some (TypeError ''logWarn'')), 1, [])"
  using assms
  by (subst fetchText_loop.simps) (simp add: fetchText_try_def res_ok_def logger_call_throws)

lemma fetchText_exception_once:
  assumes "upstream 1 = Failure err" "0 \<le> retries"
  shows "fetchText_loop upstream retries 0 None [] = (Inl (Some (TypeError ''logWarn'')), 1, [])"
  using assms
  by (subst fetchText_loop.simps) (simp add: fetchText_try_def logger_call_throws)

lemma streamToResponse_4xx_terminal:
  assumes "upstream 1 = Response status statusText body" "400 \<le> status" "status < 500" "0 \<le> retries"
  shows "streamToResponse_loop u upstream retries 0 None []
           = (Inr (Sent status (''Upstream error: '' @ showNat status)), 1, [])"
  using assms
  by (subst streamToResponse_loop.simps) (simp add: streamToResponse_try_def res_ok_def)

text \<open>The response \<open>502 Failed to fetch resource\<close> of line 237 is never sent.\<close>

lemma streamToResponse_never_502:
  "fst (streamToResponse_loop u upstream retries attempt lastErr sleeps)
     \<noteq> Inr (Sent 502 ''Failed to fetch resource'')"
proof (induction u upstream retries attempt lastErr sleeps rule: streamToResponse_loop.induct)
  case (1 u upstream retries attempt lastErr sleeps)
  show ?case
  proof (cases "int attempt \<le> retries")
    case False
    then show ?thesis by (subst streamToResponse_loop.simps) (simp add: logger_call_throws)
  next
    case True
    show ?thesis
    proof (cases "streamToResponse_try u retries (Suc attempt) (upstream (Suc attempt))")
      case (Returned r)
      then have "r \<noteq> Sent 502 ''Failed to fetch resource''"
        by (auto simp: streamToResponse_try_def split: outcome.splits if_splits)
      with True Returned show ?thesis by (subst streamToResponse_loop.simps) simp
    next
      case (Continue e)
      with True "1.IH"(1)[OF True Continue] show ?thesis
        by (subst streamToResponse_loop.simps) simp
    next
      case (Caught e)
      with True show ?thesis
        by (subst streamToResponse_loop.simps) (simp add: logger_call_throws)
    qed
  qed
qed

text \<open>
  Claim C3 fails on the code.  \<open>fetcher.js\<close> takes \<open>logger\<close> from a module that exports no
  such name, so the call \<open>logger.logWarn\<close> in the \<open>catch\<close> of both loops throws a
  \<open>TypeError\<close>.  With the default of two retries: against an upstream that answers 503 to
  every request \<open>fetchText\<close> makes three attempts and then fails with that \<open>TypeError\<close>,
  not with the last recorded error; when \<open>fetch\<close> raises an exception, \<open>fetchText\<close> and
  \<open>streamToResponse\<close> make one attempt and throw the \<open>TypeError\<close>, and \<open>streamToResponse\<close>
  sends nothing to the response.
\<close>

theorem fetcher_failure_throws_TypeError:
  "fetchText URL_new (\<lambda>n. Response 503 ''Service Unavailable'' []) None ''http://example.com/x''
     = (Inl (Some (TypeError ''logWarn'')), 3, [300, 600])
   \<and> fetchText URL_new (\<lambda>n. Failure ''socket hang up'') None ''http://example.com/x''
     = (Inl (Some (TypeError ''logWarn'')), 1, [])
   \<and> streamToResponse URL_new (\<lambda>n. Failure ''socket hang up'') None ''http://example.com/x''
     = (Inl (TypeError ''logWarn''), 1, [])"
  by code_simp
section \<open>Rewriting\<close>

subsection \<open>Percent-encoding\<close>

lemma hex_upper_table:
  "list_all (\<lambda>n. is_hex_digit (hex_upper n) \<and> hex_value (hex_upper n) = n \<and> hex_upper n \<in> set ''0123456789ABCDEF'') [0..<16]"
  by code_simp

lemma hex_upper_props:
  assumes "n < 16"
  shows "is_hex_digit (hex_upper n)" "hex_value (hex_upper n) = n" "hex_upper n \<in> set ''0123456789ABCDEF''"
proof -
  from assms have "n \<in> set [0..<16]" by simp
  with hex_upper_table have "is_hex_digit (hex_upper n) \<and> hex_value (hex_upper n) = n \<and> hex_upper n \<in> set ''0123456789ABCDEF''"
    unfolding list_all_iff by blast
  then show "is_hex_digit (hex_upper n)" "hex_value (hex_upper n) = n" "hex_upper n \<in> set ''0123456789ABCDEF''" by auto
qed

lemma code_less: "code c < 256"
  by (simp add: code_def)

lemma pct_decode: "char_of (16 * hex_value (hex_upper (code c div 16)) + hex_value (hex_upper (code c mod 16))) = c"
proof -
  have d: "code c div 16 < 16" using code_less[of c] by simp
  have m: "code c mod 16 < 16" by simp
  have "16 * (code c div 16) + code c mod 16 = code c" by simp
  then have "char_of (16 * (code c div 16) + code c mod 16) = c" by (simp add: code_def)
  then show ?thesis by (simp only: hex_upper_props(2)[OF d] hex_upper_props(2)[OF m])
qed

lemma unreserved_not_percent: "uri_unreserved c \<Longrightarrow> c \<noteq> CHR ''%''"
proof
  assume "uri_unreserved c" "c = CHR ''%''"
  then have "uri_unreserved CHR ''%''" by simp
  moreover have "\<not> uri_unreserved CHR ''%''" by code_simp
  ultimately show False by simp
qed

lemma decode_encode: "decodeURIComponent (encodeURIComponent s) = Some s"
proof (induction s)
  case Nil
  then show ?case by (simp add: encodeURIComponent_def)
next
  case (Cons c s)
  have ih: "decodeURIComponent (encodeURIComponent s) = Some s" by fact
  show ?case
  proof (cases "uri_unreserved c")
    case True
    then have "encodeURIComponent (c # s) = c # encodeURIComponent s" by (simp add: encodeURIComponent_def)
    with unreserved_not_percent[OF True] ih show ?thesis by simp
  next
    case False
    have d: "code c div 16 < 16" using code_less[of c] by simp
    have m: "code c mod 16 < 16" by simp
    from False have "encodeURIComponent (c # s)
        = CHR ''%'' # hex_upper (code c div 16) # hex_upper (code c mod 16) # encodeURIComponent s"
      by (simp add: encodeURIComponent_def pct_def)
    then show ?thesis
      using ih hex_upper_props(1)[OF d] hex_upper_props(1)[OF m] pct_decode[of c] by simp
  qed
qed


text \<open>
  Claim C6.  \<open>rewriteHtml\<close> with the default resource prefix \<open>/resource?url=\<close> turns
  \<open><img src="/a.png">\<close> on the base \<open>https://site.test/page\<close> into the tag whose \<open>src\<close> is
  the prefix followed by the encoded absolute URL \<open>https://site.test/a.png\<close>; decoding
  that query value gives the absolute URL back, and so does decoding the encoding of every
  URL that \<open>safeResolve\<close> returns.
\<close>

theorem rewriteHtml_img_src:
  \<open>rewriteHtml ''<img src="/a.png">'' ''https://site.test/page'' default_cfg
     = ''<img src="/resource?url=https%3A%2F%2Fsite.test%2Fa.png">''
   \<and> safeResolve ''/a.png'' ''https://site.test/page'' = ''https://site.test/a.png''
   \<and> decodeURIComponent ''https%3A%2F%2Fsite.test%2Fa.png'' = Some ''https://site.test/a.png''
   \<and> decodeURIComponent (encodeURIComponent (safeResolve link base)) = Some (safeResolve link base)\<close>
proof -
  have 1: \<open>rewriteHtml ''<img src="/a.png">'' ''https://site.test/page'' default_cfg
     = ''<img src="/resource?url=https%3A%2F%2Fsite.test%2Fa.png">''\<close>
    by code_simp
  have 2: "safeResolve ''/a.png'' ''https://site.test/page'' = ''https://site.test/a.png''"
    by code_simp
  have 3: "decodeURIComponent ''https%3A%2F%2Fsite.test%2Fa.png'' = Some ''https://site.test/a.png''"
    by code_simp
  from 1 2 3 show ?thesis by (simp only: decode_encode simp_thms)
qed

subsection \<open>Inlining of imports\<close>

text \<open>
  A style sheet that imports one sheet without imports is inlined, and the loop ends with
  \<open>lastIndex\<close> back at 0.
\<close>

lemma inlineImports_one_import:
  \<open>inlineImports 4 (map_of [(''https://site.test/b.css'', ''x{color:red}'')])
     ''@import "b.css";'' ''https://site.test/a.css'' 0 = Some (''x{color:red}'', 0)\<close>
  by code_simp

text \<open>
  A chain of depth 3, \<open>a.css\<close> importing \<open>sub/b.css\<close> importing \<open>c.css\<close> beside it.  The
  recursive call for \<open>sub/b.css\<close> starts its search at the \<open>lastIndex\<close> left by the outer
  match, which lies beyond the end of that sheet, and returns it as it is.  The outer
  loop then finds the import of \<open>c.css\<close> in the inserted text and resolves it against the
  address of \<open>a.css\<close>; nothing is served there, the fetch fails, and the statement is
  replaced by the empty string.  The loop ends, and the content of \<open>c.css\<close> is lost.
\<close>

lemma inlineImports_nested_wrong_base:
  \<open>inlineImports 6 (map_of [(''https://site.test/sub/b.css'', ''@import "c.css";''),
                            (''https://site.test/sub/c.css'', ''x{color:red}'')])
     ''@import "sub/b.css";'' ''https://site.test/a.css'' 0 = Some ([], 0)\<close>
  by code_simp

lemma import_prepared_eq: "import_prepared =
  Seq (Seq (Chr CHR ''@'')
       (Seq (Cls False ''iI'')
         (Seq (Cls False ''mM'')
           (Seq (Cls False ''pP'')
             (Seq (Cls False ''oO'')
               (Seq (Cls False ''rR'')
                 (Seq (Cls False ''tT'') regex.Eps)))))))
  (Seq (Seq (Cls False space_chars) (Star (Cls False space_chars)))
    (Seq (Alt (Seq (Cls False ''uU'')
                (Seq (Cls False ''rR'')
                  (Seq (Cls False ''lL'') (Seq (Chr CHR ''('') regex.Eps))))
           regex.Eps)
      (Seq (Alt (Cls False quote_chars) regex.Eps)
        (Seq (Grp 1 (Seq (Cls True (quote_chars @ '')'')) (Star (Cls True (quote_chars @ '')'')))))
          (Seq (Alt (Cls False quote_chars) regex.Eps)
             (Seq (Alt (Chr CHR '')'') regex.Eps) (Chr CHR '';'')))))))"
  unfolding import_prepared_def by code_simp

lemma import_match_stmt:
  "match_here True import_prepared p (import_stmt @ Q) = Some (Some CHR '';'', Q, [(1, ''b.css'')])"
  unfolding import_prepared_eq import_stmt_def match_here_def
  by (simp add: rmatch.simps space_chars_def quote_chars_def)

lemma import_no_match: "c \<noteq> CHR ''@'' \<Longrightarrow> match_here True import_prepared p (c # s) = None"
  unfolding import_prepared_eq match_here_def by (simp add: rmatch.simps(1,4))

lemma import_search:
  "CHR ''@'' \<notin> set P \<Longrightarrow>
   search_from True import_prepared i p (P @ import_stmt @ Q)
     = Some \<lparr> index = i + length P, matched = import_stmt, groups = [(1, ''b.css'')], after = Q \<rparr>"
proof (induction P arbitrary: i p)
  case Nil
  show ?case
    by (simp add: import_stmt_def import_match_stmt[unfolded import_stmt_def, simplified])
next
  case (Cons c P)
  then have "c \<noteq> CHR ''@''" by auto
  with Cons show ?case by (simp add: import_no_match)
qed

lemma exec_g_stmt:
  "CHR ''@'' \<notin> set P \<Longrightarrow>
   exec_g True IMPORT_REGEX 0 (P @ import_stmt @ Q)
     = (Some \<lparr> index = length P, matched = import_stmt, groups = [(1, ''b.css'')], after = Q \<rparr>,
        length P + length import_stmt)"
  using import_search[of P 0 None Q]
  by (simp add: exec_g_def import_prepared_def[symmetric] last_or_def)

lemma exec_g_beyond: "length s < li \<Longrightarrow> exec_g ci re li s = (None, 0)"
  by (simp add: exec_g_def)

lemma find_sub_stmt:
  "CHR ''@'' \<notin> set P \<Longrightarrow> find_sub import_stmt (P @ import_stmt @ Q) = Some (P, Q)"
proof (induction P)
  case Nil
  show ?case by (simp add: import_stmt_def startsWith_def)
next
  case (Cons c P)
  then have "c \<noteq> CHR ''@''" by auto
  then have "\<not> startsWith (c # P @ import_stmt @ Q) import_stmt"
    by (simp add: startsWith_def import_stmt_def)
  with Cons show ?case by simp
qed

lemma replace_stmt:
  "CHR ''@'' \<notin> set P \<Longrightarrow>
   replace_str import_stmt dollar_css (P @ import_stmt @ Q)
     = (P @ ''x{content:'' @ [CHR 0x22]) @ import_stmt @ ([CHR 0x22] @ ''}'' @ Q)"
  by (simp add: replace_str_def find_sub_stmt dollar_css_def)

lemma resolve_b: "safeResolve ''b.css'' ''https://site.test/a.css'' = ''https://site.test/b.css''"
  by code_simp

lemma imported_result:
  "length dollar_css < li \<Longrightarrow>
   inlineImports n dollar_fetcher dollar_css base li = None
   \<or> inlineImports n dollar_fetcher dollar_css base li = Some (dollar_css, 0)"
proof (cases n)
  case 0 then show ?thesis by simp
next
  case (Suc n')
  assume li: "length dollar_css < li"
  have ne: "dollar_css \<noteq> []" by (simp add: dollar_css_def)
  show ?thesis
  proof (cases n')
    case 0 with Suc ne show ?thesis by simp
  next
    case (Suc n'')
    with \<open>n = Suc n'\<close> ne exec_g_beyond[OF li] show ?thesis by simp
  qed
qed

lemma fetch_b: "dollar_fetcher ''https://site.test/b.css'' = Some dollar_css"
  by (simp add: dollar_fetcher_def)

lemma loop_step:
  assumes "CHR ''@'' \<notin> set P"
  shows "inline_loop (Suc n) dollar_fetcher (P @ import_stmt @ Q) ''https://site.test/a.css'' 0
    = (case inlineImports n dollar_fetcher dollar_css ''https://site.test/b.css'' (length P + length import_stmt) of
         None \<Rightarrow> None
       | Some (cleaned, li) \<Rightarrow>
           inline_loop n dollar_fetcher (replace_str import_stmt cleaned (P @ import_stmt @ Q))
             ''https://site.test/a.css'' li)"
proof -
  have g: "group_str [(1, ''b.css'')] 1 = ''b.css''" by (simp add: group_str_def)
  show ?thesis
    by (simp only: inline_loop.simps exec_g_stmt[OF assms] prod.case option.case rx_match.simps g resolve_b fetch_b)
qed

lemma loop_diverges:
  "CHR ''@'' \<notin> set P \<Longrightarrow>
   inline_loop n dollar_fetcher (P @ import_stmt @ Q) ''https://site.test/a.css'' 0 = None"
proof (induction n arbitrary: P Q)
  case 0
  then show ?case by simp
next
  case (Suc n)
  have li: "length dollar_css < length P + length import_stmt"
    by (simp add: dollar_css_def import_stmt_def)
  have P': "CHR ''@'' \<notin> set (P @ ''x{content:'' @ [CHR 0x22])" using Suc.prems by simp
  from imported_result[OF li, of n "''https://site.test/b.css''"]
  show ?case
  proof
    assume "inlineImports n dollar_fetcher dollar_css ''https://site.test/b.css'' (length P + length import_stmt) = None"
    then show ?thesis by (simp only: loop_step[OF Suc.prems] option.case)
  next
    assume "inlineImports n dollar_fetcher dollar_css ''https://site.test/b.css'' (length P + length import_stmt)
              = Some (dollar_css, 0)"
    then show ?thesis
      using Suc.IH[OF P']
      by (simp only: loop_step[OF Suc.prems] option.case prod.case replace_stmt[OF Suc.prems])
  qed
qed

text \<open>
  Claim C8 fails on the code.  The style sheet \<open>https://site.test/a.css\<close> is
  \<open>@import "b.css";\<close> and \<open>b.css\<close> is \<open>x{content:"$&"}\<close>, which imports nothing: a chain
  of depth 2 without a cycle.  \<open>css.replace(match[0], cleaned)\<close> takes \<open>cleaned\<close> as a
  replacement pattern, in which \<open>$&\<close> stands for the matched text, so the import statement
  is put back inside the inserted text; and the recursive call has left \<open>lastIndex\<close> of
  the shared \<open>IMPORT_REGEX\<close> at 0, so the loop finds that statement again.  Each round
  fetches \<open>b.css\<close> once more and the loop never ends: whatever the fuel, it runs out.
\<close>

theorem inlineImports_diverges:
  "inlineImports n dollar_fetcher import_stmt ''https://site.test/a.css'' 0 = None"
proof (cases n)
  case 0 then show ?thesis by simp
next
  case (Suc n')
  have ne: "import_stmt \<noteq> []" by (simp add: import_stmt_def)
  from loop_diverges[of "[]" n' "[]"] Suc ne show ?thesis by simp
qed

subsection \<open>The \<open>url(...)\<close> pass of \<open>rewriteCss\<close>\<close>























subsection \<open>Texts without \<open>@import\<close>\<close>

lemma nai_Cons:
  "no_at_import (c # s) = ((s = [] \<or> \<not> (c = CHR ''@'' \<and> hd s \<in> set after_at)) \<and> no_at_import s)"
  by (cases s) auto

lemma nai_append:
  "no_at_import (a @ b) =
     (no_at_import a \<and> no_at_import b
      \<and> (a = [] \<or> b = [] \<or> \<not> (last a = CHR ''@'' \<and> hd b \<in> set after_at)))"
proof (induction a)
  case Nil
  show ?case by simp
next
  case (Cons c a)
  show ?case
  proof (cases a)
    case Nil
    then show ?thesis by (auto simp: nai_Cons[of c b])
  next
    case (Cons d a')
    with Cons.IH show ?thesis by (auto simp: nai_Cons)
  qed
qed


lemma nai_take: "no_at_import s \<Longrightarrow> no_at_import (take n s)"
  using nai_append[of "take n s" "drop n s"] by simp

lemma nai_drop: "no_at_import s \<Longrightarrow> no_at_import (drop n s)"
  using nai_append[of "take n s" "drop n s"] by simp





















end
